theory Spec2Isabelle
  imports Complex_Main "HOL-Library.Word"
begin

unbundle bit_operations_syntax

section \<open>JavaScript strings\<close>

text \<open>
  A JavaScript string is a sequence of UTF-16 code units; \<open>length\<close> counts code units
  and \<open>===\<close> compares them one by one. A string literal is written \<open>js ''...''\<close>.
\<close>

type_synonym jschar = "16 word"
type_synonym jsstring = "jschar list"

definition js :: "string \<Rightarrow> jsstring" where
  "js s = map of_char s"

text \<open>
  \<open>String.prototype.trim\<close> removes WhiteSpace and LineTerminator code units from both
  ends: TAB, LF, VT, FF, CR, SP, NBSP, the byte-order mark and the Unicode space separators.
\<close>

definition is_ws :: "jschar \<Rightarrow> bool" where
  "is_ws c \<longleftrightarrow>
     c = 0x09 \<or> c = 0x0A \<or> c = 0x0B \<or> c = 0x0C \<or> c = 0x0D \<or> c = 0x20 \<or> c = 0xA0
     \<or> c = 0x1680 \<or> (0x2000 \<le> c \<and> c \<le> 0x200A) \<or> c = 0x2028 \<or> c = 0x2029
     \<or> c = 0x202F \<or> c = 0x205F \<or> c = 0x3000 \<or> c = 0xFEFF"

definition trim :: "jsstring \<Rightarrow> jsstring" where
  "trim s = rev (dropWhile is_ws (rev (dropWhile is_ws s)))"

text \<open>\<open>x || null\<close> on a string: the empty string is falsy.\<close>

definition or_null :: "jsstring \<Rightarrow> jsstring option" where
  "or_null s = (if s = [] then None else Some s)"

section \<open>Content hash\<close>

text \<open>
  \<open>sha256Hex(input)\<close> is \<open>crypto.createHash("sha256").update(input).digest("hex")\<close>.
  \<open>update\<close> is given a string and no encoding, so the runtime hashes the UTF-8 encoding of
  the string. The encoding is written out: a code unit outside the surrogate range is a
  code point of its own, a high surrogate followed by a low surrogate is one code point
  beyond the basic plane, and a surrogate without its partner is encoded as the
  replacement character U+FFFD. The digest of the bytes is computed by the runtime's
  crypto library, which is not part of the repository: it is a parameter \<open>sha256\<close>, any
  function from byte strings to 256-bit values. The hex encoding of the 32 digest bytes
  (64 lower-case hex digits, most significant first) is written out.
\<close>

type_synonym byte = "8 word"

definition byte :: "nat \<Rightarrow> byte" where
  "byte n = of_nat n"

definition is_high_surrogate :: "jschar \<Rightarrow> bool" where
  "is_high_surrogate c \<longleftrightarrow> 0xD800 \<le> c \<and> c \<le> 0xDBFF"

definition is_low_surrogate :: "jschar \<Rightarrow> bool" where
  "is_low_surrogate c \<longleftrightarrow> 0xDC00 \<le> c \<and> c \<le> 0xDFFF"

definition utf8_code_point :: "nat \<Rightarrow> byte list" where
  "utf8_code_point n =
     (if n < 0x80 then [byte n]
      else if n < 0x800 then [byte (0xC0 + n div 64), byte (0x80 + n mod 64)]
      else if n < 0x10000 then
        [byte (0xE0 + n div 4096), byte (0x80 + n div 64 mod 64), byte (0x80 + n mod 64)]
      else
        [byte (0xF0 + n div 262144), byte (0x80 + n div 4096 mod 64),
         byte (0x80 + n div 64 mod 64), byte (0x80 + n mod 64)])"

definition surrogate_pair :: "jschar \<Rightarrow> jschar \<Rightarrow> nat" where
  "surrogate_pair hi lo = 0x10000 + (unat hi - 0xD800) * 1024 + (unat lo - 0xDC00)"

abbreviation REPLACEMENT :: "byte list" where
  "REPLACEMENT \<equiv> [0xEF, 0xBF, 0xBD]"

fun utf8 :: "jsstring \<Rightarrow> byte list" where
  "utf8 [] = []"
| "utf8 (c # cs) =
     (if is_high_surrogate c then
        (case cs of
           [] \<Rightarrow> REPLACEMENT
         | d # ds \<Rightarrow>
             if is_low_surrogate d then utf8_code_point (surrogate_pair c d) @ utf8 ds
             else REPLACEMENT @ utf8 cs)
      else if is_low_surrogate c then REPLACEMENT @ utf8 cs
      else utf8_code_point (unat c) @ utf8 cs)"


type_synonym digest_fn = "byte list \<Rightarrow> 256 word"

definition hex_digit :: "nat \<Rightarrow> jschar" where
  "hex_digit d = (if d < 10 then of_nat (48 + d) else of_nat (87 + d))"

definition nibble :: "256 word \<Rightarrow> nat \<Rightarrow> nat" where
  "nibble w i = unat (drop_bit (4 * (63 - i)) w AND 15)"

definition hex_of :: "256 word \<Rightarrow> jsstring" where
  "hex_of w = map (\<lambda>i. hex_digit (nibble w i)) [0..<64]"

definition sha256Hex :: "digest_fn \<Rightarrow> jsstring \<Rightarrow> jsstring" where
  "sha256Hex sha256 input = hex_of (sha256 (utf8 input))"

section \<open>Pair generation (both request handlers)\<close>

datatype warning =
    WARNING_SEQUENCE_TOO_LONG
  | WARNING_INVALID_SMILES
  | WARNING_SEQUENCE_MISSING
  | WARNING_PREVIOUS_RESULT

record ligand =
  smiles :: jsstring
  ligandName :: jsstring

record target =
  sequence :: jsstring
  geneName :: jsstring

record target_ens = target +
  targetEnsemblId :: "jsstring option"

record pair =
  pair_smiles :: jsstring
  pair_sequence :: jsstring
  ligand_name :: "jsstring option"
  gene_name :: "jsstring option"
  input_hash :: "jsstring option"
  warnings :: "warning list"

record pair_ens = pair +
  target_ensembl_id :: "jsstring option"

text \<open>The warnings pushed for one pair, in the order of the two \<open>if\<close> statements.\<close>

definition pair_warnings :: "jsstring \<Rightarrow> jsstring \<Rightarrow> warning list" where
  "pair_warnings smi sq =
     (if trim smi = [] then [WARNING_INVALID_SMILES] else []) @
     (if trim sq = [] then [WARNING_SEQUENCE_MISSING]
      else if length sq > 1280 then [WARNING_SEQUENCE_TOO_LONG]
      else [])"

text \<open>The template literal \<open>`${smiles}|${sequence}|${modelVersion}`\<close>.\<close>

definition hash_preimage :: "jsstring \<Rightarrow> jsstring \<Rightarrow> jsstring \<Rightarrow> jsstring" where
  "hash_preimage smi sq modelVersion = smi @ js ''|'' @ sq @ js ''|'' @ modelVersion"

definition pair_input_hash ::
  "digest_fn \<Rightarrow> jsstring \<Rightarrow> jsstring \<Rightarrow> jsstring \<Rightarrow> jsstring option" where
  "pair_input_hash sha256 modelVersion smi sq =
     (if trim smi \<noteq> [] \<and> trim sq \<noteq> []
      then Some (sha256Hex sha256 (hash_preimage smi sq modelVersion))
      else None)"

text \<open>\<open>if (!warnings.length && input_hash) candidateHashes.push(input_hash)\<close>\<close>

definition push_candidate :: "warning list \<Rightarrow> jsstring option \<Rightarrow> jsstring list \<Rightarrow> jsstring list" where
  "push_candidate ws h candidateHashes =
     (case h of
        Some x \<Rightarrow> if ws = [] \<and> x \<noteq> [] then candidateHashes @ [x] else candidateHashes
      | None \<Rightarrow> candidateHashes)"

text \<open>The object pushed onto \<open>pairs\<close> by the handler without enrichment.\<close>

definition mk_pair :: "digest_fn \<Rightarrow> jsstring \<Rightarrow> ligand \<Rightarrow> 'a target_scheme \<Rightarrow> pair" where
  "mk_pair sha256 modelVersion l t =
     \<lparr> pair_smiles = smiles l,
       pair_sequence = sequence t,
       ligand_name = or_null (trim (ligandName l)),
       gene_name = or_null (trim (geneName t)),
       input_hash = pair_input_hash sha256 modelVersion (smiles l) (sequence t),
       warnings = pair_warnings (smiles l) (sequence t) \<rparr>"

text \<open>The object pushed onto \<open>pairs\<close> by the handler with enrichment.\<close>

definition mk_pair_ens :: "digest_fn \<Rightarrow> jsstring \<Rightarrow> ligand \<Rightarrow> target_ens \<Rightarrow> pair_ens" where
  "mk_pair_ens sha256 modelVersion l t =
     pair.extend (mk_pair sha256 modelVersion l t)
       (pair_ens.fields (targetEnsemblId t))"

text \<open>
  The body of the inner loop, on the two arrays \<open>candidateHashes\<close> and \<open>pairs\<close>, and the
  two nested \<open>for ... of\<close> loops themselves.
\<close>

definition pair_step ::
  "(ligand \<Rightarrow> 't \<Rightarrow> 'p pair_scheme) \<Rightarrow> ligand \<Rightarrow> 't
     \<Rightarrow> jsstring list \<times> 'p pair_scheme list \<Rightarrow> jsstring list \<times> 'p pair_scheme list" where
  "pair_step mk l t st =
     (let p = mk l t
      in (push_candidate (warnings p) (input_hash p) (fst st), snd st @ [p]))"

definition pair_loop ::
  "(ligand \<Rightarrow> 't \<Rightarrow> 'p pair_scheme) \<Rightarrow> ligand list \<Rightarrow> 't list
     \<Rightarrow> jsstring list \<times> 'p pair_scheme list" where
  "pair_loop mk ligands targets =
     fold (\<lambda>l st. fold (\<lambda>t st'. pair_step mk l t st') targets st) ligands ([], [])"

definition generate_pairs ::
  "digest_fn \<Rightarrow> jsstring \<Rightarrow> ligand list \<Rightarrow> target list \<Rightarrow> jsstring list \<times> pair list" where
  "generate_pairs sha256 modelVersion = pair_loop (mk_pair sha256 modelVersion)"

definition generate_pairs_ens ::
  "digest_fn \<Rightarrow> jsstring \<Rightarrow> ligand list \<Rightarrow> target_ens list \<Rightarrow> jsstring list \<times> pair_ens list" where
  "generate_pairs_ens sha256 modelVersion = pair_loop (mk_pair_ens sha256 modelVersion)"

section \<open>Ligand and target rows\<close>

text \<open>
  \<open>row[i]?.trim() ?? ""\<close>: an index beyond the row reads \<open>undefined\<close>, which the optional
  chain and \<open>??\<close> turn into the empty string. \<open>indexOf\<close> gives \<open>-1\<close> (here \<open>None\<close>) for a
  header that is absent.
\<close>

definition cell :: "jsstring list \<Rightarrow> nat \<Rightarrow> jsstring" where
  "cell row i = (if i < length row then trim (row ! i) else [])"

definition opt_cell :: "jsstring list \<Rightarrow> nat option \<Rightarrow> jsstring" where
  "opt_cell row i = (case i of Some k \<Rightarrow> cell row k | None \<Rightarrow> [])"

definition ligands_of :: "nat \<Rightarrow> nat option \<Rightarrow> jsstring list list \<Rightarrow> ligand list" where
  "ligands_of smilesIndex ligandNameIndex rows =
     map (\<lambda>row. \<lparr> smiles = cell row smilesIndex,
                  ligandName = opt_cell row ligandNameIndex \<rparr>) rows"

definition targets_of :: "nat \<Rightarrow> nat option \<Rightarrow> jsstring list list \<Rightarrow> target list" where
  "targets_of sequenceIndex geneNameIndex rows =
     map (\<lambda>row. \<lparr> sequence = cell row sequenceIndex,
                  geneName = opt_cell row geneNameIndex \<rparr>) rows"

section \<open>Run records\<close>

datatype status = Queued | Done | Failed

text \<open>JavaScript numbers are only copied here, never computed with; they are reals.\<close>

record done_run =
  done_input_hash :: "jsstring option"
  done_affinity_value :: "real option"
  done_affinity_prob :: "real option"

record run_row =
  row_id :: jsstring
  user_id :: jsstring
  status :: status
  memo :: jsstring
  created_at :: jsstring
  row_smiles :: jsstring
  smiles_canon :: "jsstring option"
  row_sequence :: jsstring
  row_ligand_name :: "jsstring option"
  row_gene_name :: "jsstring option"
  affinity_value :: "real option"
  affinity_prob :: "real option"
  row_input_hash :: "jsstring option"
  row_warnings :: "warning list option"
  model_version :: jsstring

record run_row_ens = run_row +
  indication_id :: jsstring
  row_target_ensembl_id :: "jsstring option"
  association_score :: "real option"

text \<open>
  \<open>pair.input_hash ? doneByHash.get(pair.input_hash) : undefined\<close>: \<open>null\<close> and the empty
  string are falsy.
\<close>

definition prior_of :: "(jsstring \<rightharpoonup> done_run) \<Rightarrow> jsstring option \<Rightarrow> done_run option" where
  "prior_of doneByHash h =
     (case h of Some x \<Rightarrow> if x \<noteq> [] then doneByHash x else None | None \<Rightarrow> None)"

text \<open>The first \<open>return\<close> of the \<open>pairs.map\<close> callback: a prior result is reused.\<close>

definition done_row ::
  "jsstring \<Rightarrow> jsstring \<Rightarrow> jsstring \<Rightarrow> jsstring \<Rightarrow> jsstring \<Rightarrow> done_run \<Rightarrow> 'a pair_scheme \<Rightarrow> run_row" where
  "done_row uuid userId memo' now modelVersion prior p =
     \<lparr> row_id = uuid, user_id = userId, status = Done, memo = memo', created_at = now,
       row_smiles = pair_smiles p, smiles_canon = None, row_sequence = pair_sequence p,
       row_ligand_name = ligand_name p, row_gene_name = gene_name p,
       affinity_value = done_affinity_value prior, affinity_prob = done_affinity_prob prior,
       row_input_hash = input_hash p, row_warnings = Some [WARNING_PREVIOUS_RESULT],
       model_version = modelVersion \<rparr>"

text \<open>The second \<open>return\<close>: \<open>failed\<close> with its warnings, or \<open>queued\<close>.\<close>

definition fresh_row ::
  "jsstring \<Rightarrow> jsstring \<Rightarrow> jsstring \<Rightarrow> jsstring \<Rightarrow> jsstring \<Rightarrow> 'a pair_scheme \<Rightarrow> run_row" where
  "fresh_row uuid userId memo' now modelVersion p =
     \<lparr> row_id = uuid, user_id = userId,
       status = (if warnings p \<noteq> [] then Failed else Queued), memo = memo', created_at = now,
       row_smiles = pair_smiles p, smiles_canon = None, row_sequence = pair_sequence p,
       row_ligand_name = ligand_name p, row_gene_name = gene_name p,
       affinity_value = None, affinity_prob = None,
       row_input_hash = input_hash p,
       row_warnings = (if warnings p \<noteq> [] then Some (warnings p) else None),
       model_version = modelVersion \<rparr>"

definition build_row ::
  "jsstring \<Rightarrow> jsstring \<Rightarrow> jsstring \<Rightarrow> jsstring \<Rightarrow> jsstring \<Rightarrow> (jsstring \<rightharpoonup> done_run)
     \<Rightarrow> 'a pair_scheme \<Rightarrow> run_row" where
  "build_row uuid userId memo' now modelVersion doneByHash p =
     (let hasWarnings = (warnings p \<noteq> []);
          prior = prior_of doneByHash (input_hash p)
      in case prior of
           Some pr \<Rightarrow>
             if \<not> hasWarnings then done_row uuid userId memo' now modelVersion pr p
             else fresh_row uuid userId memo' now modelVersion p
         | None \<Rightarrow> fresh_row uuid userId memo' now modelVersion p)"

text \<open>
  The handler with enrichment builds the same two objects with three more fields.
  \<open>associationByKey\<close> maps the key \<open>`${indicationId}|${targetEnsemblId}`\<close> to a score or
  \<open>null\<close>; \<open>get(...) ?? null\<close> reads an absent key as \<open>null\<close>.
\<close>

definition associationKey :: "jsstring \<Rightarrow> jsstring \<Rightarrow> jsstring" where
  "associationKey indicationId tid = indicationId @ js ''|'' @ tid"

definition association_of ::
  "jsstring \<Rightarrow> (jsstring \<rightharpoonup> real option) \<Rightarrow> jsstring option \<Rightarrow> real option" where
  "association_of indicationId associationByKey tid =
     (case tid of
        Some x \<Rightarrow>
          if x \<noteq> [] then
            (case associationByKey (associationKey indicationId x) of
               Some v \<Rightarrow> v | None \<Rightarrow> None)
          else None
      | None \<Rightarrow> None)"

definition build_row_ens ::
  "jsstring \<Rightarrow> jsstring \<Rightarrow> jsstring \<Rightarrow> jsstring \<Rightarrow> jsstring \<Rightarrow> jsstring
     \<Rightarrow> (jsstring \<rightharpoonup> done_run) \<Rightarrow> (jsstring \<rightharpoonup> real option) \<Rightarrow> pair_ens \<Rightarrow> run_row_ens" where
  "build_row_ens uuid userId memo' now modelVersion indicationId doneByHash associationByKey p =
     run_row.extend (build_row uuid userId memo' now modelVersion doneByHash p)
       (run_row_ens.fields indicationId (target_ensembl_id p)
          (association_of indicationId associationByKey (target_ensembl_id p)))"

section \<open>The status rules as the specification words them\<close>

text \<open>
  The outcome the specification prescribes for a candidate with warnings \<open>ws\<close> whose
  input hash has the entry \<open>prior\<close> (or none) in the map of prior results: status,
  affinity value, affinity probability and warnings of the emitted record.
\<close>

definition spec_record_rule ::
  "warning list \<Rightarrow> done_run option
     \<Rightarrow> status \<times> real option \<times> real option \<times> warning list option" where
  "spec_record_rule ws prior =
     (if ws = [] \<and> prior \<noteq> None then
        (Done, Option.bind prior done_affinity_value, Option.bind prior done_affinity_prob,
         Some [WARNING_PREVIOUS_RESULT])
      else if ws \<noteq> [] then (Failed, None, None, Some ws)
      else (Queued, None, None, None))"

text \<open>The entry of the map of prior results for an input hash, if the pair has one.\<close>

definition prior_entry :: "(jsstring \<rightharpoonup> done_run) \<Rightarrow> jsstring option \<Rightarrow> done_run option" where
  "prior_entry doneByHash h = (case h of Some x \<Rightarrow> doneByHash x | None \<Rightarrow> None)"

section \<open>The tabular parser\<close>

abbreviation QUOTE :: jschar where "QUOTE \<equiv> 0x22"
abbreviation COMMA :: jschar where "COMMA \<equiv> 0x2C"
abbreviation LF :: jschar where "LF \<equiv> 0x0A"
abbreviation CR :: jschar where "CR \<equiv> 0x0D"
abbreviation BOM :: jschar where "BOM \<equiv> 0xFEFF"

text \<open>The \<open>replace\<close> at the start of \<open>parseCsv\<close>: one leading byte-order mark (U+FEFF) is removed.\<close>

definition strip_bom :: "jsstring \<Rightarrow> jsstring" where
  "strip_bom text = (case text of [] \<Rightarrow> [] | c # cs \<Rightarrow> if c = BOM then cs else text)"

text \<open>
  The \<open>for\<close> loop of \<open>parseCsv\<close> over the characters that remain, with the loop variables
  \<open>inQuotes\<close>, \<open>field\<close>, \<open>row\<close> and \<open>rows\<close>. Reading \<open>normalized[i + 1]\<close> looks at the head of
  the rest, and \<open>i += 1\<close> in the body skips it. The result is the state at the end of the
  input.
\<close>

fun scan ::
  "jsstring \<Rightarrow> bool \<Rightarrow> jsstring \<Rightarrow> jsstring list \<Rightarrow> jsstring list list
     \<Rightarrow> jsstring list list \<times> jsstring list \<times> jsstring" where
  "scan [] inQuotes field row rows = (rows, row, field)"
| "scan (c # cs) True field row rows =
     (if c = QUOTE then
        (case cs of
           [] \<Rightarrow> scan cs False field row rows
         | n # cs' \<Rightarrow>
             if n = QUOTE then scan cs' True (field @ [QUOTE]) row rows
             else scan cs False field row rows)
      else scan cs True (field @ [c]) row rows)"
| "scan (c # cs) False field row rows =
     (if c = QUOTE then scan cs True field row rows
      else if c = COMMA then scan cs False [] (row @ [field]) rows
      else if c = LF then scan cs False [] [] (rows @ [row @ [field]])
      else if c = CR then
        (case cs of
           [] \<Rightarrow> scan cs False [] [] (rows @ [row @ [field]])
         | n # cs' \<Rightarrow>
             if n = LF then scan cs' False [] [] (rows @ [row @ [field]])
             else scan cs False [] [] (rows @ [row @ [field]]))
      else scan cs False (field @ [c]) row rows)"

record csv_result =
  headers :: "jsstring list"
  csv_rows :: "jsstring list list"

text \<open>\<open>line.some((cell) => cell.trim() !== "")\<close>\<close>

definition not_blank :: "jsstring list \<Rightarrow> bool" where
  "not_blank line = list_ex (\<lambda>cell. trim cell \<noteq> []) line"

definition parseCsv :: "jsstring \<Rightarrow> csv_result" where
  "parseCsv text =
     (case scan (strip_bom text) False [] [] [] of
        (rows, row, field) \<Rightarrow>
          let rows' = (if field \<noteq> [] \<or> row \<noteq> [] then rows @ [row @ [field]] else rows);
              trimmed = filter not_blank rows'
          in case trimmed of
               [] \<Rightarrow> \<lparr> headers = [], csv_rows = [] \<rparr>
             | h # rest \<Rightarrow> \<lparr> headers = map trim h, csv_rows = rest \<rparr>)"

section \<open>Writing delimited text, as the specification words it\<close>

text \<open>
  A field is enclosed in quotes with every interior quote doubled. A well-formed document
  writes each field either quoted or, when it contains no quote, separator or line
  terminator, as it is; fields are joined by the separator and every record ends with a
  line feed.
\<close>

definition escape_quotes :: "jsstring \<Rightarrow> jsstring" where
  "escape_quotes f = concat (map (\<lambda>c. if c = QUOTE then [QUOTE, QUOTE] else [c]) f)"

definition quote_field :: "jsstring \<Rightarrow> jsstring" where
  "quote_field f = [QUOTE] @ escape_quotes f @ [QUOTE]"

definition is_plain :: "jsstring \<Rightarrow> bool" where
  "is_plain f = list_all (\<lambda>c. c \<noteq> QUOTE \<and> c \<noteq> COMMA \<and> c \<noteq> LF \<and> c \<noteq> CR) f"

definition encode_field :: "jsstring \<Rightarrow> jsstring" where
  "encode_field f = (if is_plain f then f else quote_field f)"

fun encode_row :: "jsstring list \<Rightarrow> jsstring" where
  "encode_row [] = []"
| "encode_row [f] = encode_field f"
| "encode_row (f # g # fs) = encode_field f @ [COMMA] @ encode_row (g # fs)"

definition encode_doc :: "jsstring list list \<Rightarrow> jsstring" where
  "encode_doc lines = concat (map (\<lambda>r. encode_row r @ [LF]) lines)"

section \<open>Identifier resolution\<close>

abbreviation DOT :: jschar where "DOT \<equiv> 0x2E"

definition is_digit :: "jschar \<Rightarrow> bool" where
  "is_digit c \<longleftrightarrow> 0x30 \<le> c \<and> c \<le> 0x39"

text \<open>
  The regular expression \<open>^ENSG\d+(\.\d+)?$\<close>: the four letters, one or more digits, and
  then either the end of the string or a dot followed by one or more digits up to the end.
\<close>

definition ensg_match :: "jsstring \<Rightarrow> bool" where
  "ensg_match u \<longleftrightarrow>
     take 4 u = js ''ENSG''
     \<and> takeWhile is_digit (drop 4 u) \<noteq> []
     \<and> (case dropWhile is_digit (drop 4 u) of
          [] \<Rightarrow> True
        | c # version \<Rightarrow> c = DOT \<and> version \<noteq> [] \<and> list_all is_digit version)"

text \<open>
  \<open>toUpperCase\<close> is the runtime's Unicode case mapping, a parameter of the model.
  \<open>upper.split(".")[0]\<close> is the part before the first dot.
\<close>

definition normalizeEnsemblId :: "(jsstring \<Rightarrow> jsstring) \<Rightarrow> jsstring \<Rightarrow> jsstring option" where
  "normalizeEnsemblId toUpperCase v =
     (let trimmed = trim v in
      if trimmed = [] then None
      else let upper = toUpperCase trimmed in
        if \<not> ensg_match upper then None
        else Some (takeWhile (\<lambda>c. c \<noteq> DOT) upper))"

text \<open>
  The batched lookup is one HTTP request whose body is the list \<open>pending\<close>. The request
  may throw (transport error, or the abort after 10 seconds), answer with a non-success
  status, answer with a body that is not JSON, or answer with a payload that gives some
  symbols an \<open>id\<close>.
\<close>

datatype lookup_response =
    LookupThrows
  | LookupNotOk nat
  | LookupBadJson
  | LookupPayload "jsstring \<rightharpoonup> jsstring"

datatype exn =
    FetchFailed
  | JsonFailed
  | OpenTargetsError nat

text \<open>The first loop of \<open>resolveEnsemblIds\<close>, on the map \<open>resolved\<close> and the array \<open>pending\<close>.\<close>

definition sort_symbol ::
  "(jsstring \<Rightarrow> jsstring) \<Rightarrow> jsstring
     \<Rightarrow> (jsstring \<rightharpoonup> jsstring) \<times> jsstring list \<Rightarrow> (jsstring \<rightharpoonup> jsstring) \<times> jsstring list" where
  "sort_symbol toUpperCase raw st =
     (let trimmed = trim raw in
      if trimmed = [] then st
      else case normalizeEnsemblId toUpperCase trimmed of
             Some direct \<Rightarrow>
               if direct \<noteq> [] then ((fst st)(trimmed \<mapsto> direct), snd st)
               else (fst st, snd st @ [trimmed])
           | None \<Rightarrow> (fst st, snd st @ [trimmed]))"

definition sort_symbols ::
  "(jsstring \<Rightarrow> jsstring) \<Rightarrow> jsstring list \<Rightarrow> (jsstring \<rightharpoonup> jsstring) \<times> jsstring list" where
  "sort_symbols toUpperCase symbols = fold (sort_symbol toUpperCase) symbols (Map.empty, [])"

text \<open>The loop over \<open>pending\<close> after a successful answer: \<open>if (entry?.id) resolved.set(...)\<close>.\<close>

definition apply_payload ::
  "(jsstring \<rightharpoonup> jsstring) \<Rightarrow> jsstring list \<Rightarrow> (jsstring \<rightharpoonup> jsstring) \<Rightarrow> (jsstring \<rightharpoonup> jsstring)" where
  "apply_payload payload pending resolved =
     fold (\<lambda>symbol m. case payload symbol of
                          Some i \<Rightarrow> if i \<noteq> [] then m(symbol \<mapsto> i) else m
                        | None \<Rightarrow> m) pending resolved"

text \<open>
  The body of the \<open>try\<close> block: it either throws or completes with the map to return.
  The early \<open>return resolved\<close> on a non-success status is a completion.
\<close>

definition lookup_try ::
  "(jsstring list \<Rightarrow> lookup_response) \<Rightarrow> jsstring list \<Rightarrow> (jsstring \<rightharpoonup> jsstring)
     \<Rightarrow> exn + (jsstring \<rightharpoonup> jsstring)" where
  "lookup_try lookup pending resolved =
     (case lookup pending of
        LookupThrows \<Rightarrow> Inl FetchFailed
      | LookupNotOk code \<Rightarrow> Inr resolved
      | LookupBadJson \<Rightarrow> Inl JsonFailed
      | LookupPayload payload \<Rightarrow> Inr (apply_payload payload pending resolved))"

text \<open>
  What a call of \<open>resolveEnsemblIds\<close> leaves behind: the map it returns, the bodies of the
  lookup requests it sent, and the errors it wrote to the console.
\<close>

record resolve_result =
  resolved :: "jsstring \<rightharpoonup> jsstring"
  lookup_requests :: "jsstring list list"
  lookup_errors :: "exn list"

definition resolveEnsemblIds ::
  "(jsstring \<Rightarrow> jsstring) \<Rightarrow> (jsstring list \<Rightarrow> lookup_response) \<Rightarrow> jsstring list
     \<Rightarrow> resolve_result" where
  "resolveEnsemblIds toUpperCase lookup symbols =
     (case sort_symbols toUpperCase symbols of
        (direct, pending) \<Rightarrow>
          if pending = [] then
            \<lparr> resolved = direct, lookup_requests = [], lookup_errors = [] \<rparr>
          else
            (case lookup_try lookup pending direct of
               Inl e \<Rightarrow>
                 \<lparr> resolved = direct, lookup_requests = [pending], lookup_errors = [e] \<rparr>
             | Inr m \<Rightarrow>
                 \<lparr> resolved = m, lookup_requests = [pending], lookup_errors = [] \<rparr>))"

section \<open>Association score fetch\<close>

text \<open>
  One page of the ranking service for one target. The request may throw (transport error
  or the abort after 12 seconds), answer with a non-success status, answer with a body
  that is not JSON, or answer with a payload. Of the payload the code reads
  \<open>associatedDiseases.count\<close> and \<open>associatedDiseases.rows\<close> through optional chains: a
  missing level reads as no count and no rows.
\<close>

record assoc_row =
  score :: "real option"
  disease_id :: "jsstring option"

record assoc_page =
  page_count :: "int option"
  page_rows :: "assoc_row list"

datatype page_response =
    PageThrows
  | PageNotOk nat
  | PageBadJson
  | PagePayload assoc_page

abbreviation OPENTARGETS_PAGE_SIZE :: nat where "OPENTARGETS_PAGE_SIZE \<equiv> 50"

text \<open>
  The \<open>while (true)\<close> loop of \<open>fetchAssociationScore\<close>, with the loop variables \<open>index\<close> and
  \<open>total\<close> (here \<open>total'\<close>) and the list of page indices requested so far. The server is the function
  from the page index of a request to its outcome. A run that never leaves the loop has
  the value \<open>None\<close>; a run that ends gives the value returned or the exception thrown,
  and the requests made.
\<close>

partial_function (option) fetch_loop ::
  "(nat \<Rightarrow> page_response) \<Rightarrow> jsstring \<Rightarrow> nat \<Rightarrow> int \<Rightarrow> nat list
     \<Rightarrow> ((exn + real option) \<times> nat list) option" where
  "fetch_loop server indicationId index total' requests =
     (case server index of
        PageThrows \<Rightarrow> Some (Inl FetchFailed, requests @ [index])
      | PageNotOk code \<Rightarrow> Some (Inl (OpenTargetsError code), requests @ [index])
      | PageBadJson \<Rightarrow> Some (Inl JsonFailed, requests @ [index])
      | PagePayload page \<Rightarrow>
          (case find (\<lambda>row. disease_id row = Some indicationId) (page_rows page) of
             Some row \<Rightarrow> Some (Inr (score row), requests @ [index])
           | None \<Rightarrow>
               if int ((index + 1) * OPENTARGETS_PAGE_SIZE)
                    \<ge> (case page_count page of Some c \<Rightarrow> c | None \<Rightarrow> total')
                  \<or> page_rows page = []
               then Some (Inr None, requests @ [index])
               else fetch_loop server indicationId (index + 1)
                      (case page_count page of Some c \<Rightarrow> c | None \<Rightarrow> total')
                      (requests @ [index])))"

definition fetchAssociationScore ::
  "(nat \<Rightarrow> page_response) \<Rightarrow> jsstring \<Rightarrow> ((exn + real option) \<times> nat list) option" where
  "fetchAssociationScore server indicationId = fetch_loop server indicationId 0 0 []"

text \<open>
  The value of \<open>total\<close> after the pages \<open>0 .. k\<close> have been read: the count of the last
  page that reported one, and \<open>0\<close> when none did.
\<close>

fun total_after :: "(nat \<Rightarrow> page_response) \<Rightarrow> nat \<Rightarrow> int" where
  "total_after server 0 =
     (case server 0 of
        PagePayload page \<Rightarrow> (case page_count page of Some c \<Rightarrow> c | None \<Rightarrow> 0)
      | _ \<Rightarrow> 0)"
| "total_after server (Suc k) =
     (case server (Suc k) of
        PagePayload page \<Rightarrow>
          (case page_count page of Some c \<Rightarrow> c | None \<Rightarrow> total_after server k)
      | _ \<Rightarrow> total_after server k)"

text \<open>
  Page \<open>k\<close> ends the fetch: its request fails, or it holds a row of the indication, or it
  is empty, or the pages read so far cover the reported total.
\<close>

definition page_stops :: "(nat \<Rightarrow> page_response) \<Rightarrow> jsstring \<Rightarrow> nat \<Rightarrow> bool" where
  "page_stops server indicationId k =
     (case server k of
        PagePayload page \<Rightarrow>
          find (\<lambda>row. disease_id row = Some indicationId) (page_rows page) \<noteq> None
          \<or> page_rows page = []
          \<or> int ((k + 1) * OPENTARGETS_PAGE_SIZE) \<ge> total_after server k
      | _ \<Rightarrow> True)"

text \<open>What the fetch returns or throws when page \<open>k\<close> ends it.\<close>

definition page_outcome :: "(nat \<Rightarrow> page_response) \<Rightarrow> jsstring \<Rightarrow> nat \<Rightarrow> exn + real option" where
  "page_outcome server indicationId k =
     (case server k of
        PageThrows \<Rightarrow> Inl FetchFailed
      | PageNotOk code \<Rightarrow> Inl (OpenTargetsError code)
      | PageBadJson \<Rightarrow> Inl JsonFailed
      | PagePayload page \<Rightarrow>
          (case find (\<lambda>row. disease_id row = Some indicationId) (page_rows page) of
             Some row \<Rightarrow> Inr (score row)
           | None \<Rightarrow> Inr None))"

text \<open>The value of \<open>total\<close> when the loop is about to request page \<open>i\<close>.\<close>

definition prev_total :: "(nat \<Rightarrow> page_response) \<Rightarrow> nat \<Rightarrow> int" where
  "prev_total server i = (case i of 0 \<Rightarrow> 0 | Suc j \<Rightarrow> total_after server j)"

section \<open>The request handlers\<close>

text \<open>
  The environment variables (each read with \<open>?? ""\<close>), the request with its form fields,
  and what the runtime and the external services answer. The hash digest, the case
  mappings, the identifiers \<open>crypto.randomUUID()\<close> returns (one per record, in order) and
  the clock are the runtime's; the identity service, the store and the two remote
  services are functions from a request to its outcome.
\<close>

record env =
  NEXT_PUBLIC_SUPABASE_URL :: jsstring
  SUPABASE_SECRET_KEY :: jsstring
  MODEL_VERSION :: jsstring

datatype form_value = FormText jsstring | FormFile jsstring

record request =
  authorization :: "jsstring option"
  ligand_csv :: "form_value option"
  target_csv :: "form_value option"
  memo_field :: "form_value option"
  indication_id_field :: "form_value option"

record runtime =
  sha256_digest :: digest_fn
  toLowerCase :: "jsstring \<Rightarrow> jsstring"
  toUpperCase :: "jsstring \<Rightarrow> jsstring"
  randomUUID :: "nat \<Rightarrow> jsstring"
  now_iso :: jsstring

record known_score =
  known_target_ensembl_id :: "jsstring option"
  known_association_score :: "real option"

record 'r services =
  getUser :: "jsstring \<Rightarrow> jsstring option"
  select_done :: "jsstring list \<Rightarrow> done_run list option"
  select_known_scores :: "jsstring \<Rightarrow> jsstring list \<Rightarrow> known_score list option"
  insert_runs :: "'r list \<Rightarrow> bool"
  ensembl_lookup :: "jsstring list \<Rightarrow> lookup_response"
  opentargets :: "jsstring \<Rightarrow> nat \<Rightarrow> page_response"

datatype error_message =
    ConfigMissing
  | AuthRequired
  | InvalidIndication
  | FilesRequired
  | ColumnsRequired
  | RowsEmpty
  | DedupFailed
  | AssociationQueryFailed
  | InsertFailed

record summary =
  sum_total :: nat
  sum_queued :: nat
  sum_done :: nat
  sum_failed :: nat

datatype body = ErrorBody error_message | SummaryBody summary

datatype response = Response nat body

text \<open>
  What a request leaves behind: the response, the batches handed to the store's insert,
  the errors written to the console, and the pages requested from the ranking service.
\<close>

record 'r outcome =
  response :: response
  insert_calls :: "'r list list"
  logged :: "exn list"
  page_requests :: "(jsstring \<times> nat) list"

definition reply :: "nat \<Rightarrow> error_message \<Rightarrow> 'r outcome" where
  "reply code msg =
     \<lparr> response = Response code (ErrorBody msg), insert_calls = [], logged = [],
       page_requests = [] \<rparr>"

text \<open>\<open>authHeader.startsWith("Bearer ") ? authHeader.slice("Bearer ".length) : ""\<close>\<close>

definition bearer_token :: "jsstring option \<Rightarrow> jsstring" where
  "bearer_token h =
     (let authHeader = (case h of Some a \<Rightarrow> a | None \<Rightarrow> [])
      in if take 7 authHeader = js ''Bearer '' then drop 7 authHeader else [])"

text \<open>\<open>(formData.get(name) ?? "").toString()\<close>\<close>

definition form_text :: "form_value option \<Rightarrow> jsstring" where
  "form_text v =
     (case v of None \<Rightarrow> [] | Some (FormText s) \<Rightarrow> s | Some (FormFile f) \<Rightarrow> js ''[object File]'')"

definition INDICATIONS :: "(jsstring \<times> jsstring) list" where
  "INDICATIONS = [(js ''EFO_0000565'', js ''Leukemia'')]"

definition isValidIndication :: "jsstring \<Rightarrow> bool" where
  "isValidIndication i = list_ex (\<lambda>option. fst option = i) INDICATIONS"

text \<open>\<open>indexOf\<close>: the first position of the value, \<open>None\<close> for \<open>-1\<close>.\<close>

fun index_of :: "'a \<Rightarrow> 'a list \<Rightarrow> nat option" where
  "index_of v [] = None"
| "index_of v (x # xs) = (if x = v then Some 0 else map_option Suc (index_of v xs))"

text \<open>\<open>chunk(items, size)\<close> for a positive size, the only use the handlers make of it.\<close>

fun chunk :: "'a list \<Rightarrow> nat \<Rightarrow> 'a list list" where
  "chunk [] (Suc n) = []"
| "chunk (x # xs) (Suc n) = take (Suc n) (x # xs) # chunk (drop n xs) (Suc n)"

text \<open>\<open>Array.from(new Set(items))\<close>: the first occurrence of every value, in order.\<close>

definition unique :: "'a list \<Rightarrow> 'a list" where
  "unique items = fold (\<lambda>x acc. if x \<in> set acc then acc else acc @ [x]) items []"

text \<open>
  The loop over the batches of hashes: a store error ends the request (\<open>None\<close>); otherwise
  every returned row with a non-empty hash is put into \<open>doneByHash\<close>.
\<close>

fun find_done ::
  "(jsstring list \<Rightarrow> done_run list option) \<Rightarrow> jsstring list list \<Rightarrow> (jsstring \<rightharpoonup> done_run)
     \<Rightarrow> (jsstring \<rightharpoonup> done_run) option" where
  "find_done sel [] doneByHash = Some doneByHash"
| "find_done sel (batch # batches) doneByHash =
     (case sel batch of
        None \<Rightarrow> None
      | Some data \<Rightarrow>
          find_done sel batches
            (fold (\<lambda>row m. case done_input_hash row of
                              Some h \<Rightarrow> if h \<noteq> [] then m(h \<mapsto> row) else m
                            | None \<Rightarrow> m) data doneByHash))"

definition summarize :: "'a run_row_scheme list \<Rightarrow> summary" where
  "summarize rows =
     fold (\<lambda>row acc.
             \<lparr> sum_total = sum_total acc + 1,
               sum_queued = (if status row = Queued then sum_queued acc + 1 else sum_queued acc),
               sum_done = (if status row = Done then sum_done acc + 1 else sum_done acc),
               sum_failed = (if status row = Failed then sum_failed acc + 1 else sum_failed acc) \<rparr>)
          rows \<lparr> sum_total = 0, sum_queued = 0, sum_done = 0, sum_failed = 0 \<rparr>"

text \<open>The insert and the final response, common to both handlers.\<close>

definition persist ::
  "('r list \<Rightarrow> bool) \<Rightarrow> summary \<Rightarrow> 'r list \<Rightarrow> exn list \<Rightarrow> (jsstring \<times> nat) list \<Rightarrow> 'r outcome" where
  "persist ins s rowsToInsert errs reqs =
     (if ins rowsToInsert then
        \<lparr> response = Response 200 (SummaryBody s), insert_calls = [rowsToInsert],
          logged = errs, page_requests = reqs \<rparr>
      else
        \<lparr> response = Response 500 (ErrorBody InsertFailed), insert_calls = [rowsToInsert],
          logged = errs, page_requests = reqs \<rparr>)"

subsection \<open>The handler without enrichment\<close>

definition submit ::
  "env \<Rightarrow> runtime \<Rightarrow> run_row services \<Rightarrow> jsstring \<Rightarrow> jsstring \<Rightarrow> jsstring \<Rightarrow> jsstring
     \<Rightarrow> run_row outcome" where
  "submit e rt sv userId memo' ligandText targetText =
     (let ligandCsv = parseCsv ligandText;
          targetCsv = parseCsv targetText;
          ligandHeader = map (toLowerCase rt) (headers ligandCsv);
          targetHeader = map (toLowerCase rt) (headers targetCsv)
      in case (index_of (js ''smiles'') ligandHeader, index_of (js ''sequence'') targetHeader) of
           (Some smilesIndex, Some sequenceIndex) \<Rightarrow>
             (let ligands = ligands_of smilesIndex (index_of (js ''name'') ligandHeader)
                              (csv_rows ligandCsv);
                  targets = targets_of sequenceIndex (index_of (js ''name'') targetHeader)
                              (csv_rows targetCsv)
              in if ligands = [] \<or> targets = [] then reply 400 RowsEmpty
                 else
                   (case generate_pairs (sha256_digest rt) (MODEL_VERSION e) ligands targets of
                      (candidateHashes, pairs) \<Rightarrow>
                        (case find_done (select_done sv) (chunk (unique candidateHashes) 200)
                                Map.empty of
                           None \<Rightarrow> reply 500 DedupFailed
                         | Some doneByHash \<Rightarrow>
                             (let rowsToInsert =
                                    map (\<lambda>(i, p). build_row (randomUUID rt i) userId memo'
                                                      (now_iso rt) (MODEL_VERSION e) doneByHash p)
                                        (enumerate 0 pairs)
                              in persist (insert_runs sv) (summarize rowsToInsert)
                                   rowsToInsert [] []))))
         | _ \<Rightarrow> reply 400 ColumnsRequired)"

definition POST :: "env \<Rightarrow> runtime \<Rightarrow> run_row services \<Rightarrow> request \<Rightarrow> run_row outcome" where
  "POST e rt sv req =
     (if NEXT_PUBLIC_SUPABASE_URL e = [] \<or> SUPABASE_SECRET_KEY e = [] \<or> MODEL_VERSION e = []
      then reply 500 ConfigMissing
      else if bearer_token (authorization req) = [] then reply 401 AuthRequired
      else case getUser sv (bearer_token (authorization req)) of
             None \<Rightarrow> reply 401 AuthRequired
           | Some userId \<Rightarrow>
               (case (ligand_csv req, target_csv req) of
                  (Some (FormFile ligandText), Some (FormFile targetText)) \<Rightarrow>
                    submit e rt sv userId (form_text (memo_field req)) ligandText targetText
                | _ \<Rightarrow> reply 400 FilesRequired))"

subsection \<open>The handler with enrichment\<close>

text \<open>
  \<open>direct ?? (geneName ? ensemblBySymbol.get(geneName) ?? null : null)\<close>, stored as the
  field \<open>targetEnsemblId\<close> beside the fields of the target.
\<close>

definition with_ensembl ::
  "(jsstring \<Rightarrow> jsstring) \<Rightarrow> (jsstring \<rightharpoonup> jsstring) \<Rightarrow> target \<Rightarrow> target_ens" where
  "with_ensembl up ensemblBySymbol t =
     (let name = trim (geneName t);
          direct = (if name \<noteq> [] then normalizeEnsemblId up name else None)
      in target.extend t
           (target_ens.fields
              (case direct of
                 Some d \<Rightarrow> Some d
               | None \<Rightarrow> if name \<noteq> [] then ensemblBySymbol name else None)))"

text \<open>
  The loop over the batches of target identifiers: a store error ends the request;
  otherwise every returned row with an identifier and a score is put into
  \<open>associationByKey\<close>.
\<close>

fun find_known_scores ::
  "(jsstring list \<Rightarrow> known_score list option) \<Rightarrow> jsstring \<Rightarrow> jsstring list list
     \<Rightarrow> (jsstring \<rightharpoonup> real option) \<Rightarrow> (jsstring \<rightharpoonup> real option) option" where
  "find_known_scores sel indicationId [] associationByKey = Some associationByKey"
| "find_known_scores sel indicationId (batch # batches) associationByKey =
     (case sel batch of
        None \<Rightarrow> None
      | Some data \<Rightarrow>
          find_known_scores sel indicationId batches
            (fold (\<lambda>row m.
                     case (known_target_ensembl_id row, known_association_score row) of
                       (Some tid, Some sc) \<Rightarrow>
                         if tid \<noteq> [] then m(associationKey indicationId tid \<mapsto> Some sc) else m
                     | _ \<Rightarrow> m) data associationByKey))"

text \<open>
  The loop over the unique target identifiers, with its \<open>try\<close> and \<open>catch\<close>: an
  identifier with a known score is skipped; for the others the score is fetched, and an
  exception of the fetch is written to the console and the score set to \<open>null\<close>. The loop
  has no value when a fetch does not end.
\<close>

fun fetch_missing ::
  "(jsstring \<Rightarrow> nat \<Rightarrow> page_response) \<Rightarrow> jsstring \<Rightarrow> jsstring list
     \<Rightarrow> (jsstring \<rightharpoonup> real option) \<Rightarrow> exn list \<Rightarrow> (jsstring \<times> nat) list
     \<Rightarrow> ((jsstring \<rightharpoonup> real option) \<times> exn list \<times> (jsstring \<times> nat) list) option" where
  "fetch_missing ot indicationId [] associationByKey errs reqs =
     Some (associationByKey, errs, reqs)"
| "fetch_missing ot indicationId (tid # tids) associationByKey errs reqs =
     (if associationByKey (associationKey indicationId tid) \<noteq> None
      then fetch_missing ot indicationId tids associationByKey errs reqs
      else case fetchAssociationScore (ot tid) indicationId of
             None \<Rightarrow> None
           | Some (Inr sc, pages) \<Rightarrow>
               fetch_missing ot indicationId tids
                 (associationByKey(associationKey indicationId tid \<mapsto> sc))
                 errs (reqs @ map (Pair tid) pages)
           | Some (Inl ex, pages) \<Rightarrow>
               fetch_missing ot indicationId tids
                 (associationByKey(associationKey indicationId tid \<mapsto> None))
                 (errs @ [ex]) (reqs @ map (Pair tid) pages))"

text \<open>
  The handler's steps after the check for prior results: known scores, missing scores,
  the records, the insert and the response.
\<close>

definition enrich_and_persist ::
  "env \<Rightarrow> runtime \<Rightarrow> run_row_ens services \<Rightarrow> jsstring \<Rightarrow> jsstring \<Rightarrow> jsstring \<Rightarrow> exn list
     \<Rightarrow> (jsstring \<rightharpoonup> done_run) \<Rightarrow> pair_ens list \<Rightarrow> run_row_ens outcome option" where
  "enrich_and_persist e rt sv userId memo' indicationId errs0 doneByHash pairs =
     (let uniqueTargetEnsemblIds =
            unique (filter (\<lambda>v. v \<noteq> []) (List.map_filter target_ensembl_id pairs))
      in case find_known_scores (select_known_scores sv indicationId) indicationId
                (chunk uniqueTargetEnsemblIds 200) Map.empty of
           None \<Rightarrow> Some ((reply 500 AssociationQueryFailed)\<lparr>logged := errs0\<rparr>)
         | Some known \<Rightarrow>
             (case fetch_missing (opentargets sv) indicationId uniqueTargetEnsemblIds known
                     errs0 [] of
                None \<Rightarrow> None
              | Some (associationByKey, errs, reqs) \<Rightarrow>
                  (let rowsToInsert =
                         map (\<lambda>(i, p).
                                build_row_ens (randomUUID rt i) userId memo' (now_iso rt)
                                  (MODEL_VERSION e) indicationId doneByHash associationByKey p)
                             (enumerate 0 pairs)
                   in Some (persist (insert_runs sv) (summarize rowsToInsert) rowsToInsert
                              errs reqs))))"

text \<open>The handler's steps from the parsing of the two files to the check for prior results.\<close>

definition submit_ens ::
  "env \<Rightarrow> runtime \<Rightarrow> run_row_ens services \<Rightarrow> jsstring \<Rightarrow> jsstring \<Rightarrow> jsstring \<Rightarrow> jsstring
     \<Rightarrow> jsstring \<Rightarrow> run_row_ens outcome option" where
  "submit_ens e rt sv userId memo' indicationId ligandText targetText =
     (let ligandCsv = parseCsv ligandText;
          targetCsv = parseCsv targetText;
          ligandHeader = map (toLowerCase rt) (headers ligandCsv);
          targetHeader = map (toLowerCase rt) (headers targetCsv)
      in case (index_of (js ''smiles'') ligandHeader, index_of (js ''sequence'') targetHeader) of
           (Some smilesIndex, Some sequenceIndex) \<Rightarrow>
             (let ligands = ligands_of smilesIndex (index_of (js ''name'') ligandHeader)
                              (csv_rows ligandCsv);
                  targets = targets_of sequenceIndex (index_of (js ''name'') targetHeader)
                              (csv_rows targetCsv)
              in if ligands = [] \<or> targets = [] then Some (reply 400 RowsEmpty)
                 else
                   (let uniqueGeneSymbols =
                          unique (filter (\<lambda>v. v \<noteq> []) (map (\<lambda>t. trim (geneName t)) targets));
                        res = resolveEnsemblIds (toUpperCase rt) (ensembl_lookup sv)
                                uniqueGeneSymbols;
                        targetsWithEnsembl =
                          map (with_ensembl (toUpperCase rt) (resolved res)) targets
                    in case generate_pairs_ens (sha256_digest rt) (MODEL_VERSION e) ligands
                              targetsWithEnsembl of
                         (candidateHashes, pairs) \<Rightarrow>
                           (case find_done (select_done sv) (chunk (unique candidateHashes) 200)
                                   Map.empty of
                              None \<Rightarrow> Some ((reply 500 DedupFailed)\<lparr>logged := lookup_errors res\<rparr>)
                            | Some doneByHash \<Rightarrow>
                                enrich_and_persist e rt sv userId memo' indicationId
                                  (lookup_errors res) doneByHash pairs)))
         | _ \<Rightarrow> Some (reply 400 ColumnsRequired))"

definition POST_ens ::
  "env \<Rightarrow> runtime \<Rightarrow> run_row_ens services \<Rightarrow> request \<Rightarrow> run_row_ens outcome option" where
  "POST_ens e rt sv req =
     (if NEXT_PUBLIC_SUPABASE_URL e = [] \<or> SUPABASE_SECRET_KEY e = [] \<or> MODEL_VERSION e = []
      then Some (reply 500 ConfigMissing)
      else if bearer_token (authorization req) = [] then Some (reply 401 AuthRequired)
      else case getUser sv (bearer_token (authorization req)) of
             None \<Rightarrow> Some (reply 401 AuthRequired)
           | Some userId \<Rightarrow>
               (let indicationId = trim (form_text (indication_id_field req))
                in if indicationId = [] \<or> \<not> isValidIndication indicationId
                   then Some (reply 400 InvalidIndication)
                   else
                     (case (ligand_csv req, target_csv req) of
                        (Some (FormFile ligandText), Some (FormFile targetText)) \<Rightarrow>
                          submit_ens e rt sv userId (form_text (memo_field req)) indicationId
                            ligandText targetText
                      | _ \<Rightarrow> Some (reply 400 FilesRequired))))"

text \<open>
  What the client and the store see of a request: the response, the inserts and the pages
  requested, that is everything but the console.
\<close>

definition observable :: "'r outcome \<Rightarrow> response \<times> 'r list list \<times> (jsstring \<times> nat) list" where
  "observable out = (response out, insert_calls out, page_requests out)"

text \<open>The ranking service with page \<open>k\<close> of target \<open>tid\<close> answered by an empty page instead.\<close>

definition with_empty_page ::
  "(jsstring \<Rightarrow> nat \<Rightarrow> page_response) \<Rightarrow> jsstring \<Rightarrow> nat \<Rightarrow> jsstring \<Rightarrow> nat \<Rightarrow> page_response" where
  "with_empty_page ot tid k =
     (\<lambda>t i. if t = tid \<and> i = k then PagePayload \<lparr>page_count = None, page_rows = []\<rparr>
            else ot t i)"

text \<open>A failed fetch and a fetch that found nothing differ only in what is thrown.\<close>

definition same_or_null ::
  "((exn + real option) \<times> nat list) option \<Rightarrow> ((exn + real option) \<times> nat list) option \<Rightarrow> bool" where
  "same_or_null a b \<longleftrightarrow>
     a = b \<or> (\<exists>ex pages. a = Some (Inl ex, pages) \<and> b = Some (Inr None, pages))"

section \<open>Properties of pair generation\<close>

lemma inner_fold_snd:
  "snd (fold (\<lambda>t st'. pair_step mk l t st') ts st) = snd st @ map (mk l) ts"
  by (induction ts arbitrary: st) (simp_all add: pair_step_def Let_def)

lemma outer_fold_snd:
  "snd (fold (\<lambda>l st. fold (\<lambda>t st'. pair_step mk l t st') ts st) ls st0)
     = snd st0 @ concat (map (\<lambda>l. map (mk l) ts) ls)"
  by (induction ls arbitrary: st0) (simp_all add: inner_fold_snd)

lemma pair_loop_pairs:
  "snd (pair_loop mk ls ts) = concat (map (\<lambda>l. map (mk l) ts) ls)"
  by (simp add: pair_loop_def outer_fold_snd)



lemma pair_loop_mem:
  "p \<in> set (snd (pair_loop mk ls ts)) \<Longrightarrow> \<exists>l \<in> set ls. \<exists>t \<in> set ts. p = mk l t"
  by (auto simp: pair_loop_pairs)

lemma dropWhile_fixed: "(\<And>x. xs = x # tl xs \<Longrightarrow> \<not> P x) \<Longrightarrow> dropWhile P xs = xs"
  by (cases xs) simp_all

lemma trim_length_le: "length (trim s) \<le> length s"
proof -
  have "length (dropWhile is_ws (rev (dropWhile is_ws s))) \<le> length (rev (dropWhile is_ws s))"
    by (rule length_dropWhile_le)
  also have "\<dots> \<le> length s"
    by (simp add: length_dropWhile_le)
  finally show ?thesis by (simp add: trim_def)
qed

lemma trim_Nil [simp]: "trim [] = []"
  by (simp add: trim_def)

lemma trim_idem: "trim (trim s) = trim s"
proof -
  define a where "a = dropWhile is_ws s"
  define b where "b = dropWhile is_ws (rev a)"
  have trim: "trim s = rev b" by (simp add: trim_def a_def b_def)
  have b_fix: "dropWhile is_ws b = b"
    unfolding b_def by (simp add: dropWhile_idem)
  have a_fix: "dropWhile is_ws a = a"
    unfolding a_def by (simp add: dropWhile_idem)
  have front: "dropWhile is_ws (rev b) = rev b"
  proof (cases "b = []")
    case True
    then show ?thesis by simp
  next
    case False
    then have anz: "a \<noteq> []" by (auto simp: b_def)
    from False have "\<not> is_ws (hd b)" unfolding b_def by (rule hd_dropWhile)
    obtain pre where pre: "rev a = pre @ b"
      unfolding b_def by (metis takeWhile_dropWhile_id)
    then have "a = rev b @ rev pre" by (metis rev_append rev_rev_ident)
    with False have "hd (rev b) = hd a" by simp
    moreover from anz a_fix have "\<not> is_ws (hd a)" by (metis hd_dropWhile)
    ultimately have "\<not> is_ws (hd (rev b))" by simp
    with False show ?thesis by (cases "rev b") simp_all
  qed
  show ?thesis
    unfolding trim by (simp add: trim_def front b_fix)
qed






lemma hex_of_length: "length (hex_of w) = 64"
  by (simp add: hex_of_def)

lemma sha256Hex_nonempty: "sha256Hex f s \<noteq> []"
  using hex_of_length [of "f (utf8 s)"] by (auto simp: sha256Hex_def)



lemma trim_fixed: "s \<noteq> [] \<Longrightarrow> \<not> is_ws (hd s) \<Longrightarrow> \<not> is_ws (last s) \<Longrightarrow> trim s = s"
proof -
  assume a: "s \<noteq> []" "\<not> is_ws (hd s)" "\<not> is_ws (last s)"
  from a(1,2) have f: "dropWhile is_ws s = s" by (cases s) simp_all
  from a(1,3) have "\<not> is_ws (hd (rev s))" by (simp add: hd_rev)
  with a(1) have "dropWhile is_ws (rev s) = rev s" by (cases "rev s") simp_all
  with f show ?thesis by (simp add: trim_def)
qed

lemma warnings_mk_pair_ens [simp]:
  "warnings (mk_pair_ens sha256 mv l e) = warnings (mk_pair sha256 mv l e)"
  "pair_sequence (mk_pair_ens sha256 mv l e) = pair_sequence (mk_pair sha256 mv l e)"
  "pair_smiles (mk_pair_ens sha256 mv l e) = pair_smiles (mk_pair sha256 mv l e)"
  "input_hash (mk_pair_ens sha256 mv l e) = input_hash (mk_pair sha256 mv l e)"
  by (simp_all add: mk_pair_ens_def pair.defs mk_pair_def)

lemma sequence_warnings_mk_pair:
  "(trim (sequence t) = [] \<longrightarrow>
       WARNING_SEQUENCE_MISSING \<in> set (warnings (mk_pair sha256 mv l t))
     \<and> WARNING_SEQUENCE_TOO_LONG \<notin> set (warnings (mk_pair sha256 mv l t)))
   \<and> (trim (sequence t) \<noteq> [] \<and> length (trim (sequence t)) > 1280 \<longrightarrow>
       WARNING_SEQUENCE_TOO_LONG \<in> set (warnings (mk_pair sha256 mv l t))
     \<and> WARNING_SEQUENCE_MISSING \<notin> set (warnings (mk_pair sha256 mv l t)))
   \<and> \<not> (WARNING_SEQUENCE_MISSING \<in> set (warnings (mk_pair sha256 mv l t))
        \<and> WARNING_SEQUENCE_TOO_LONG \<in> set (warnings (mk_pair sha256 mv l t)))"
  using trim_length_le [of "sequence t"]
  by (auto simp: mk_pair_def pair_warnings_def)

text \<open>
  Claim C4. In every pair produced by either handler the two sequence warnings exclude
  each other: a sequence that trims to the empty string is flagged
  \<open>sequence_missing\<close> and not \<open>sequence_too_long\<close>; a sequence that trims to a non-empty
  string of more than 1280 code units is flagged \<open>sequence_too_long\<close> and not
  \<open>sequence_missing\<close>.
\<close>

theorem sequence_warnings_exclusive:
  "(\<forall>p \<in> set (snd (generate_pairs sha256 mv ls ts)).
      (trim (pair_sequence p) = [] \<longrightarrow>
          WARNING_SEQUENCE_MISSING \<in> set (warnings p)
        \<and> WARNING_SEQUENCE_TOO_LONG \<notin> set (warnings p))
    \<and> (trim (pair_sequence p) \<noteq> [] \<and> length (trim (pair_sequence p)) > 1280 \<longrightarrow>
          WARNING_SEQUENCE_TOO_LONG \<in> set (warnings p)
        \<and> WARNING_SEQUENCE_MISSING \<notin> set (warnings p))
    \<and> \<not> (WARNING_SEQUENCE_MISSING \<in> set (warnings p)
          \<and> WARNING_SEQUENCE_TOO_LONG \<in> set (warnings p)))
   \<and> (\<forall>p \<in> set (snd (generate_pairs_ens sha256 mv ls es)).
      (trim (pair_sequence p) = [] \<longrightarrow>
          WARNING_SEQUENCE_MISSING \<in> set (warnings p)
        \<and> WARNING_SEQUENCE_TOO_LONG \<notin> set (warnings p))
    \<and> (trim (pair_sequence p) \<noteq> [] \<and> length (trim (pair_sequence p)) > 1280 \<longrightarrow>
          WARNING_SEQUENCE_TOO_LONG \<in> set (warnings p)
        \<and> WARNING_SEQUENCE_MISSING \<notin> set (warnings p))
    \<and> \<not> (WARNING_SEQUENCE_MISSING \<in> set (warnings p)
          \<and> WARNING_SEQUENCE_TOO_LONG \<in> set (warnings p)))"
proof (rule conjI; rule ballI)
  fix p assume "p \<in> set (snd (generate_pairs sha256 mv ls ts))"
  then obtain l and t :: target where p: "p = mk_pair sha256 mv l t"
    unfolding generate_pairs_def by (auto simp: pair_loop_pairs)
  have sq: "pair_sequence p = sequence t" by (simp add: p mk_pair_def)
  show "(trim (pair_sequence p) = [] \<longrightarrow>
          WARNING_SEQUENCE_MISSING \<in> set (warnings p)
        \<and> WARNING_SEQUENCE_TOO_LONG \<notin> set (warnings p))
    \<and> (trim (pair_sequence p) \<noteq> [] \<and> length (trim (pair_sequence p)) > 1280 \<longrightarrow>
          WARNING_SEQUENCE_TOO_LONG \<in> set (warnings p)
        \<and> WARNING_SEQUENCE_MISSING \<notin> set (warnings p))
    \<and> \<not> (WARNING_SEQUENCE_MISSING \<in> set (warnings p)
          \<and> WARNING_SEQUENCE_TOO_LONG \<in> set (warnings p))"
    unfolding sq unfolding p by (rule sequence_warnings_mk_pair)
next
  fix p assume "p \<in> set (snd (generate_pairs_ens sha256 mv ls es))"
  then obtain l e where p: "p = mk_pair_ens sha256 mv l e"
    unfolding generate_pairs_ens_def by (auto simp: pair_loop_pairs)
  have sq: "pair_sequence p = sequence e" by (simp add: p mk_pair_def)
  have w: "warnings p = warnings (mk_pair sha256 mv l e)" by (simp add: p)
  show "(trim (pair_sequence p) = [] \<longrightarrow>
          WARNING_SEQUENCE_MISSING \<in> set (warnings p)
        \<and> WARNING_SEQUENCE_TOO_LONG \<notin> set (warnings p))
    \<and> (trim (pair_sequence p) \<noteq> [] \<and> length (trim (pair_sequence p)) > 1280 \<longrightarrow>
          WARNING_SEQUENCE_TOO_LONG \<in> set (warnings p)
        \<and> WARNING_SEQUENCE_MISSING \<notin> set (warnings p))
    \<and> \<not> (WARNING_SEQUENCE_MISSING \<in> set (warnings p)
          \<and> WARNING_SEQUENCE_TOO_LONG \<in> set (warnings p))"
    unfolding sq w by (rule sequence_warnings_mk_pair)
qed

theorem sequence_warnings_exclusive_witness:
  "mk_pair (\<lambda>_. 0) (js ''v1'') \<lparr>smiles = js ''CCO'', ligandName = []\<rparr>
       \<lparr>sequence = replicate 1281 0x4D, geneName = []\<rparr>
     \<in> set (snd (generate_pairs (\<lambda>_. 0) (js ''v1'') [\<lparr>smiles = js ''CCO'', ligandName = []\<rparr>]
                [\<lparr>sequence = replicate 1281 0x4D, geneName = []\<rparr>]))
   \<and> trim (replicate 1281 0x4D) \<noteq> []
   \<and> length (trim (replicate 1281 0x4D)) > 1280
   \<and> WARNING_SEQUENCE_TOO_LONG \<in> set (warnings
        (mk_pair (\<lambda>_. 0) (js ''v1'') \<lparr>smiles = js ''CCO'', ligandName = []\<rparr>
           \<lparr>sequence = replicate 1281 0x4D, geneName = []\<rparr>))
   \<and> WARNING_SEQUENCE_MISSING \<notin> set (warnings
        (mk_pair (\<lambda>_. 0) (js ''v1'') \<lparr>smiles = js ''CCO'', ligandName = []\<rparr>
           \<lparr>sequence = replicate 1281 0x4D, geneName = []\<rparr>))"
proof -
  let ?l = "\<lparr>smiles = js ''CCO'', ligandName = []\<rparr>"
  let ?t = "\<lparr>sequence = replicate 1281 (0x4D :: jschar), geneName = []\<rparr>"
  let ?p = "mk_pair (\<lambda>_. 0) (js ''v1'') ?l ?t"
  have m: "?p \<in> set (snd (generate_pairs (\<lambda>_. 0) (js ''v1'') [?l] [?t]))"
    by (simp add: generate_pairs_def pair_loop_pairs)
  have nws: "\<not> is_ws (0x4D :: jschar)" by (simp add: is_ws_def)
  have tr: "trim (replicate 1281 (0x4D :: jschar)) = replicate 1281 0x4D"
    by (rule trim_fixed) (simp_all add: nws)
  have sq: "pair_sequence ?p = replicate 1281 0x4D" by (simp add: mk_pair_def)
  have h: "trim (pair_sequence ?p) \<noteq> [] \<and> length (trim (pair_sequence ?p)) > 1280"
    unfolding sq tr by simp
  from sequence_warnings_exclusive [of "\<lambda>_. 0" "js ''v1''" "[?l]" "[?t]" "[]"] m h
  have "WARNING_SEQUENCE_TOO_LONG \<in> set (warnings ?p)
      \<and> WARNING_SEQUENCE_MISSING \<notin> set (warnings ?p)" by blast
  with m h show ?thesis unfolding sq by blast
qed

lemma input_hash_mk_pair_nonempty: "input_hash (mk_pair sha256 mv l t) \<noteq> Some []"
  by (simp add: mk_pair_def pair_input_hash_def sha256Hex_nonempty)

lemma prior_of_entry: "h \<noteq> Some [] \<Longrightarrow> prior_of doneByHash h = prior_entry doneByHash h"
  by (simp add: prior_of_def prior_entry_def split: option.splits)

lemma build_row_rule:
  "input_hash p \<noteq> Some [] \<Longrightarrow>
   (status (build_row uuid userId m now mv doneByHash p),
    affinity_value (build_row uuid userId m now mv doneByHash p),
    affinity_prob (build_row uuid userId m now mv doneByHash p),
    row_warnings (build_row uuid userId m now mv doneByHash p))
   = spec_record_rule (warnings p) (prior_entry doneByHash (input_hash p))"
  by (simp add: build_row_def Let_def prior_of_entry spec_record_rule_def done_row_def
      fresh_row_def split: option.splits)

lemma build_row_ens_fields [simp]:
  "status (build_row_ens uuid userId m now mv ind doneByHash abk p)
     = status (build_row uuid userId m now mv doneByHash p)"
  "affinity_value (build_row_ens uuid userId m now mv ind doneByHash abk p)
     = affinity_value (build_row uuid userId m now mv doneByHash p)"
  "affinity_prob (build_row_ens uuid userId m now mv ind doneByHash abk p)
     = affinity_prob (build_row uuid userId m now mv doneByHash p)"
  "row_warnings (build_row_ens uuid userId m now mv ind doneByHash abk p)
     = row_warnings (build_row uuid userId m now mv doneByHash p)"
  by (simp_all add: build_row_ens_def run_row.defs)

text \<open>
  Claim C1. For every candidate pair of either handler the emitted record follows the
  three rules in order: no warnings and a prior result for the input hash give \<open>done\<close>
  with the prior affinity values and the single warning \<open>previous_result_available\<close>;
  otherwise warnings give \<open>failed\<close> with null affinities and the computed warnings;
  otherwise the record is \<open>queued\<close> with affinities and warnings null.
\<close>

theorem record_status_rules:
  "(\<forall>p \<in> set (snd (generate_pairs sha256 mv ls ts)).
      (status (build_row uuid userId m now mv doneByHash p),
       affinity_value (build_row uuid userId m now mv doneByHash p),
       affinity_prob (build_row uuid userId m now mv doneByHash p),
       row_warnings (build_row uuid userId m now mv doneByHash p))
      = spec_record_rule (warnings p) (prior_entry doneByHash (input_hash p)))
   \<and> (\<forall>p \<in> set (snd (generate_pairs_ens sha256 mv ls es)).
      (status (build_row_ens uuid userId m now mv ind doneByHash abk p),
       affinity_value (build_row_ens uuid userId m now mv ind doneByHash abk p),
       affinity_prob (build_row_ens uuid userId m now mv ind doneByHash abk p),
       row_warnings (build_row_ens uuid userId m now mv ind doneByHash abk p))
      = spec_record_rule (warnings p) (prior_entry doneByHash (input_hash p)))"
proof (rule conjI; rule ballI)
  fix p assume "p \<in> set (snd (generate_pairs sha256 mv ls ts))"
  then obtain l and t :: target where p: "p = mk_pair sha256 mv l t"
    unfolding generate_pairs_def by (auto simp: pair_loop_pairs)
  then have "input_hash p \<noteq> Some []" by (simp add: input_hash_mk_pair_nonempty)
  then show "(status (build_row uuid userId m now mv doneByHash p),
       affinity_value (build_row uuid userId m now mv doneByHash p),
       affinity_prob (build_row uuid userId m now mv doneByHash p),
       row_warnings (build_row uuid userId m now mv doneByHash p))
      = spec_record_rule (warnings p) (prior_entry doneByHash (input_hash p))"
    by (rule build_row_rule)
next
  fix p assume "p \<in> set (snd (generate_pairs_ens sha256 mv ls es))"
  then obtain l e where p: "p = mk_pair_ens sha256 mv l e"
    unfolding generate_pairs_ens_def by (auto simp: pair_loop_pairs)
  then have "input_hash p \<noteq> Some []" by (simp add: input_hash_mk_pair_nonempty)
  then show "(status (build_row_ens uuid userId m now mv ind doneByHash abk p),
       affinity_value (build_row_ens uuid userId m now mv ind doneByHash abk p),
       affinity_prob (build_row_ens uuid userId m now mv ind doneByHash abk p),
       row_warnings (build_row_ens uuid userId m now mv ind doneByHash abk p))
      = spec_record_rule (warnings p) (prior_entry doneByHash (input_hash p))"
    unfolding build_row_ens_fields by (rule build_row_rule)
qed

theorem record_status_rules_witness:
  "mk_pair (\<lambda>_. 0) (js ''v1'') \<lparr>smiles = js ''CCO'', ligandName = js ''ethanol''\<rparr>
       \<lparr>sequence = js ''MKT'', geneName = js ''TP53''\<rparr>
     \<in> set (snd (generate_pairs (\<lambda>_. 0) (js ''v1'')
                [\<lparr>smiles = js ''CCO'', ligandName = js ''ethanol''\<rparr>]
                [\<lparr>sequence = js ''MKT'', geneName = js ''TP53''\<rparr>]))
   \<and> (status (build_row (js ''id-1'') (js ''u'') (js ''memo'') (js ''now'') (js ''v1'')
               (\<lambda>_. Some \<lparr>done_input_hash = None, done_affinity_value = Some 7,
                             done_affinity_prob = Some 1\<rparr>)
               (mk_pair (\<lambda>_. 0) (js ''v1'') \<lparr>smiles = js ''CCO'', ligandName = js ''ethanol''\<rparr>
                  \<lparr>sequence = js ''MKT'', geneName = js ''TP53''\<rparr>)),
       affinity_value (build_row (js ''id-1'') (js ''u'') (js ''memo'') (js ''now'') (js ''v1'')
               (\<lambda>_. Some \<lparr>done_input_hash = None, done_affinity_value = Some 7,
                             done_affinity_prob = Some 1\<rparr>)
               (mk_pair (\<lambda>_. 0) (js ''v1'') \<lparr>smiles = js ''CCO'', ligandName = js ''ethanol''\<rparr>
                  \<lparr>sequence = js ''MKT'', geneName = js ''TP53''\<rparr>)),
       affinity_prob (build_row (js ''id-1'') (js ''u'') (js ''memo'') (js ''now'') (js ''v1'')
               (\<lambda>_. Some \<lparr>done_input_hash = None, done_affinity_value = Some 7,
                             done_affinity_prob = Some 1\<rparr>)
               (mk_pair (\<lambda>_. 0) (js ''v1'') \<lparr>smiles = js ''CCO'', ligandName = js ''ethanol''\<rparr>
                  \<lparr>sequence = js ''MKT'', geneName = js ''TP53''\<rparr>)),
       row_warnings (build_row (js ''id-1'') (js ''u'') (js ''memo'') (js ''now'') (js ''v1'')
               (\<lambda>_. Some \<lparr>done_input_hash = None, done_affinity_value = Some 7,
                             done_affinity_prob = Some 1\<rparr>)
               (mk_pair (\<lambda>_. 0) (js ''v1'') \<lparr>smiles = js ''CCO'', ligandName = js ''ethanol''\<rparr>
                  \<lparr>sequence = js ''MKT'', geneName = js ''TP53''\<rparr>)))
     = (Done, Some 7, Some 1, Some [WARNING_PREVIOUS_RESULT])"
proof -
  let ?l = "\<lparr>smiles = js ''CCO'', ligandName = js ''ethanol''\<rparr>"
  let ?t = "\<lparr>sequence = js ''MKT'', geneName = js ''TP53''\<rparr>"
  let ?p = "mk_pair (\<lambda>_. 0) (js ''v1'') ?l ?t"
  let ?d = "\<lambda>_ :: jsstring. Some \<lparr>done_input_hash = None, done_affinity_value = Some 7,
                             done_affinity_prob = Some 1\<rparr>"
  have m: "?p \<in> set (snd (generate_pairs (\<lambda>_. 0) (js ''v1'') [?l] [?t]))"
    by (simp add: generate_pairs_def pair_loop_pairs)
  have w: "warnings ?p = []"
    by (simp add: mk_pair_def pair_warnings_def trim_def js_def is_ws_def)
  have h: "input_hash ?p \<noteq> None"
    by (simp add: mk_pair_def pair_input_hash_def trim_def js_def is_ws_def)
  have "spec_record_rule (warnings ?p) (prior_entry ?d (input_hash ?p))
      = (Done, Some 7, Some 1, Some [WARNING_PREVIOUS_RESULT])"
    using h unfolding w by (auto simp: spec_record_rule_def prior_entry_def)
  with record_status_rules [of "\<lambda>_. 0" "js ''v1''" "[?l]" "[?t]" "js ''id-1''" "js ''u''"
      "js ''memo''" "js ''now''" ?d] m
  show ?thesis by auto
qed

text \<open>
  Claim C10. The input hash is not injective on (smiles, sequence): under any digest and
  any model version, the pair with smiles \<open>A|B\<close> and sequence \<open>C\<close> and the pair with smiles
  \<open>A\<close> and sequence \<open>B|C\<close> differ in both fields, carry no warnings and have the same input
  hash, so a prior result stored for the first makes the record of the second \<open>done\<close>
  with the first pair's affinity values.
\<close>

theorem input_hash_delimiter_collision:
  "pair_smiles (mk_pair sha256 mv \<lparr>smiles = js ''A|B'', ligandName = n1\<rparr>
                  \<lparr>sequence = js ''C'', geneName = g1\<rparr>)
     \<noteq> pair_smiles (mk_pair sha256 mv \<lparr>smiles = js ''A'', ligandName = n2\<rparr>
                  \<lparr>sequence = js ''B|C'', geneName = g2\<rparr>)
   \<and> pair_sequence (mk_pair sha256 mv \<lparr>smiles = js ''A|B'', ligandName = n1\<rparr>
                  \<lparr>sequence = js ''C'', geneName = g1\<rparr>)
     \<noteq> pair_sequence (mk_pair sha256 mv \<lparr>smiles = js ''A'', ligandName = n2\<rparr>
                  \<lparr>sequence = js ''B|C'', geneName = g2\<rparr>)
   \<and> input_hash (mk_pair sha256 mv \<lparr>smiles = js ''A|B'', ligandName = n1\<rparr>
                  \<lparr>sequence = js ''C'', geneName = g1\<rparr>)
     = Some (sha256Hex sha256 (js ''A|B|C|'' @ mv))
   \<and> input_hash (mk_pair sha256 mv \<lparr>smiles = js ''A'', ligandName = n2\<rparr>
                  \<lparr>sequence = js ''B|C'', geneName = g2\<rparr>)
     = Some (sha256Hex sha256 (js ''A|B|C|'' @ mv))
   \<and> warnings (mk_pair sha256 mv \<lparr>smiles = js ''A|B'', ligandName = n1\<rparr>
                  \<lparr>sequence = js ''C'', geneName = g1\<rparr>) = []
   \<and> warnings (mk_pair sha256 mv \<lparr>smiles = js ''A'', ligandName = n2\<rparr>
                  \<lparr>sequence = js ''B|C'', geneName = g2\<rparr>) = []
   \<and> status (build_row uuid userId m now mv
        (Map.empty (sha256Hex sha256 (hash_preimage (js ''A|B'') (js ''C'') mv) \<mapsto> pr))
        (mk_pair sha256 mv \<lparr>smiles = js ''A'', ligandName = n2\<rparr>
                  \<lparr>sequence = js ''B|C'', geneName = g2\<rparr>)) = Done
   \<and> affinity_value (build_row uuid userId m now mv
        (Map.empty (sha256Hex sha256 (hash_preimage (js ''A|B'') (js ''C'') mv) \<mapsto> pr))
        (mk_pair sha256 mv \<lparr>smiles = js ''A'', ligandName = n2\<rparr>
                  \<lparr>sequence = js ''B|C'', geneName = g2\<rparr>)) = done_affinity_value pr"
  by (simp add: mk_pair_def pair_input_hash_def pair_warnings_def hash_preimage_def
      build_row_def prior_of_def done_row_def sha256Hex_nonempty Let_def
      trim_def js_def is_ws_def)






lemma unat_byte: "n < 256 \<Longrightarrow> unat (byte n) = n"
  by (simp add: byte_def unat_of_nat)

lemma byte_inj: "a < 256 \<Longrightarrow> b < 256 \<Longrightarrow> byte a = byte b \<Longrightarrow> a = b"
  by (metis unat_byte)
















lemma scan_plain:
  "is_plain f \<Longrightarrow> scan (f @ rest) False fld row rows = scan rest False (fld @ f) row rows"
  by (induction f arbitrary: fld) (simp_all add: is_plain_def)

lemma scan_quoted_body:
  "rest = [] \<or> hd rest \<noteq> QUOTE \<Longrightarrow>
   scan (escape_quotes f @ QUOTE # rest) True fld row rows = scan rest False (fld @ f) row rows"
proof (induction f arbitrary: fld)
  case Nil
  then show ?case by (cases rest) (simp_all add: escape_quotes_def)
next
  case (Cons c f)
  from Cons.IH [OF Cons.prems] have ih:
    "\<And>fld. scan (escape_quotes f @ QUOTE # rest) True fld row rows = scan rest False (fld @ f) row rows" .
  show ?case
  proof (cases "c = QUOTE")
    case True
    have "escape_quotes (QUOTE # f) = QUOTE # QUOTE # escape_quotes f"
      by (simp add: escape_quotes_def)
    with True show ?thesis by (simp add: ih)
  next
    case False
    then have "escape_quotes (c # f) = c # escape_quotes f"
      by (simp add: escape_quotes_def)
    with False show ?thesis by (simp add: ih)
  qed
qed

lemma scan_field:
  "rest = [] \<or> hd rest \<noteq> QUOTE \<Longrightarrow>
   scan (encode_field f @ rest) False [] row rows = scan rest False f row rows"
  using scan_plain [of f rest "[]" row rows] scan_quoted_body [of rest f "[]" row rows]
  by (simp add: encode_field_def quote_field_def)

lemma scan_row:
  "r \<noteq> [] \<Longrightarrow>
   scan (encode_row r @ LF # rest) False [] row rows = scan rest False [] [] (rows @ [row @ r])"
proof (induction r arbitrary: row rule: encode_row.induct)
  case 1
  then show ?case by simp
next
  case (2 f)
  have "scan (encode_field f @ LF # rest) False [] row rows = scan (LF # rest) False f row rows"
    by (rule scan_field) simp
  then show ?case by simp
next
  case (3 f g fs)
  have "scan (encode_field f @ COMMA # encode_row (g # fs) @ LF # rest) False [] row rows
      = scan (COMMA # encode_row (g # fs) @ LF # rest) False f row rows"
    by (rule scan_field) simp
  with "3.IH" [of "row @ [f]"] show ?case by simp
qed

lemma scan_doc:
  "\<forall>r \<in> set ls. r \<noteq> [] \<Longrightarrow> scan (encode_doc ls) False [] [] rows = (rows @ ls, [], [])"
proof (induction ls arbitrary: rows)
  case Nil
  then show ?case by (simp add: encode_doc_def)
next
  case (Cons r ls)
  then have r: "r \<noteq> []" and rest: "\<forall>r \<in> set ls. r \<noteq> []" by simp_all
  have "encode_doc (r # ls) = encode_row r @ LF # encode_doc ls"
    by (simp add: encode_doc_def)
  with scan_row [OF r, of "encode_doc ls" "[]" rows] Cons.IH [OF rest, of "rows @ [r]"]
  show ?case by simp
qed

lemma trim_BOM: "trim (BOM # s) = trim s"
  by (simp add: trim_def is_ws_def)

lemma not_blank_BOM: "not_blank ((BOM # c) # cs) = not_blank (c # cs)"
  by (simp add: not_blank_def trim_BOM)

lemma is_plain_tl: "is_plain (c # f) \<Longrightarrow> is_plain f"
  by (simp add: is_plain_def)

lemma encode_row_hd_quoted:
  "\<not> is_plain f \<Longrightarrow> strip_bom (encode_row (f # fs) @ rest) = encode_row (f # fs) @ rest"
  by (cases fs) (simp_all add: encode_field_def quote_field_def strip_bom_def)

text \<open>Removing the byte-order mark from the text removes it from the first header cell.\<close>

lemma strip_bom_encode_doc:
  assumes "h \<noteq> []"
  shows "\<exists>h'. h' \<noteq> [] \<and> not_blank h' = not_blank h \<and> map trim h' = map trim h
           \<and> strip_bom (encode_doc (h # ls)) = encode_doc (h' # ls)"
proof -
  from assms obtain f fs where h: "h = f # fs" by (cases h) auto
  have doc: "\<And>x. encode_doc (x # ls) = encode_row x @ LF # encode_doc ls"
    by (simp add: encode_doc_def)
  show ?thesis
  proof (cases "is_plain f \<and> f \<noteq> [] \<and> hd f = BOM")
    case True
    then obtain g where f: "f = BOM # g" and pg: "is_plain g" and pf: "is_plain f"
      by (cases f) (auto dest: is_plain_tl)
    have "encode_row (f # fs) = BOM # encode_row (g # fs)"
      using pg pf by (cases fs) (simp_all add: encode_field_def f)
    then have "strip_bom (encode_doc (h # ls)) = encode_doc ((g # fs) # ls)"
      by (simp add: doc h strip_bom_def)
    moreover have "not_blank (g # fs) = not_blank h" by (simp add: h f not_blank_BOM)
    moreover have "map trim (g # fs) = map trim h" by (simp add: h f trim_BOM)
    ultimately show ?thesis by blast
  next
    case False
    have "strip_bom (encode_doc (h # ls)) = encode_doc (h # ls)"
    proof (cases "is_plain f")
      case True
      with False have "f = [] \<or> hd f \<noteq> BOM" by blast
      then have "strip_bom (encode_row (f # fs) @ LF # encode_doc ls)
               = encode_row (f # fs) @ LF # encode_doc ls"
        using True by (cases fs; cases f) (simp_all add: encode_field_def strip_bom_def)
      then show ?thesis by (simp add: doc h)
    next
      case False
      then show ?thesis by (simp add: doc h encode_row_hd_quoted del: append.simps)
    qed
    with assms show ?thesis by blast
  qed
qed

lemma parseCsv_encode_doc:
  assumes "h \<noteq> []" and "not_blank h" and "\<forall>r \<in> set ls. r \<noteq> []"
  shows "parseCsv (encode_doc (h # ls)) = \<lparr> headers = map trim h, csv_rows = filter not_blank ls \<rparr>"
proof -
  from strip_bom_encode_doc [OF assms(1), of ls] obtain h' where
    h': "h' \<noteq> []" "not_blank h' = not_blank h" "map trim h' = map trim h"
    "strip_bom (encode_doc (h # ls)) = encode_doc (h' # ls)" by blast
  from h'(1) assms(3) have "\<forall>r \<in> set (h' # ls). r \<noteq> []" by simp
  then have "scan (encode_doc (h' # ls)) False [] [] [] = ([] @ h' # ls, [], [])"
    by (rule scan_doc)
  then show ?thesis
    using assms(2) h'(2,3) by (simp add: parseCsv_def h'(4))
qed

lemma comma_not_plain: "COMMA \<in> set f \<Longrightarrow> \<not> is_plain f"
  by (auto simp: is_plain_def list_all_iff)

lemma comma_not_blank: "COMMA \<in> set f \<Longrightarrow> f \<in> set r \<Longrightarrow> not_blank r"
proof -
  assume c: "COMMA \<in> set f" and f: "f \<in> set r"
  have "\<not> is_ws COMMA" by (simp add: is_ws_def)
  have "trim f \<noteq> []"
  proof
    assume "trim f = []"
    then have "dropWhile is_ws (rev (dropWhile is_ws f)) = []" by (simp add: trim_def)
    then have "\<forall>x \<in> set (rev (dropWhile is_ws f)). is_ws x" by (simp add: dropWhile_eq_Nil_conv)
    then have "\<forall>x \<in> set (dropWhile is_ws f). is_ws x" by simp
    then have "dropWhile is_ws f = []"
      by (metis hd_dropWhile list.set_sel(1))
    then have "\<forall>x \<in> set f. is_ws x" by (simp add: dropWhile_eq_Nil_conv)
    with c \<open>\<not> is_ws COMMA\<close> show False by blast
  qed
  with f show ?thesis by (auto simp: not_blank_def list_ex_iff)
qed

text \<open>
  Claim C9. In a well-formed document (a non-blank header record followed by data
  records, every field written plain or quoted as its content requires), a field that
  contains the separator is written enclosed in quotes with its interior quotes doubled,
  and parsing the document gives back exactly the non-blank data records: the record of
  that field is among them, with the field as one cell, unchanged.
\<close>

theorem quoted_field_round_trip:
  assumes "h \<noteq> []" and "not_blank h" and "\<forall>r \<in> set ls. r \<noteq> []"
    and "r \<in> set ls" and "f \<in> set r" and "COMMA \<in> set f"
  shows "encode_field f = quote_field f
    \<and> csv_rows (parseCsv (encode_doc (h # ls))) = filter not_blank ls
    \<and> r \<in> set (csv_rows (parseCsv (encode_doc (h # ls))))"
proof -
  have "encode_field f = quote_field f"
    using comma_not_plain [OF assms(6)] by (simp add: encode_field_def)
  moreover have rows: "csv_rows (parseCsv (encode_doc (h # ls))) = filter not_blank ls"
    by (simp add: parseCsv_encode_doc [OF assms(1-3)])
  moreover have "r \<in> set (csv_rows (parseCsv (encode_doc (h # ls))))"
    unfolding rows using assms(4) comma_not_blank [OF assms(6,5)] by simp
  ultimately show ?thesis by blast
qed

theorem quoted_field_round_trip_witness:
  "encode_doc [[js ''name'', js ''smiles''], [js ''eth'', [0x43, COMMA, QUOTE, 0x4F]]]
     = js ''name,smiles'' @ [LF] @ js ''eth,'' @ [QUOTE, 0x43, COMMA, QUOTE, QUOTE, 0x4F, QUOTE, LF]
   \<and> [js ''eth'', [0x43, COMMA, QUOTE, 0x4F]]
       \<in> set (csv_rows (parseCsv (js ''name,smiles'' @ [LF] @ js ''eth,''
                  @ [QUOTE, 0x43, COMMA, QUOTE, QUOTE, 0x4F, QUOTE, LF])))"
proof -
  let ?h = "[js ''name'', js ''smiles'']"
  let ?f = "[0x43, COMMA, QUOTE, 0x4F] :: jsstring"
  let ?r = "[js ''eth'', ?f]"
  have enc: "encode_doc [?h, ?r]
     = js ''name,smiles'' @ [LF] @ js ''eth,'' @ [QUOTE, 0x43, COMMA, QUOTE, QUOTE, 0x4F, QUOTE, LF]"
    by (simp add: encode_doc_def encode_field_def is_plain_def quote_field_def
        escape_quotes_def js_def)
  have a: "?h \<noteq> []" "not_blank ?h" "\<forall>r \<in> set [?r]. r \<noteq> []" "?r \<in> set [?r]" "?f \<in> set ?r"
    "COMMA \<in> set ?f"
    by (simp_all add: not_blank_def trim_def js_def is_ws_def)
  from quoted_field_round_trip [OF a]
  have "?r \<in> set (csv_rows (parseCsv (encode_doc [?h, ?r])))" by blast
  then show ?thesis unfolding enc by (simp add: enc)
qed

lemma ensg_match_stem_nonempty: "ensg_match u \<Longrightarrow> takeWhile (\<lambda>c. c \<noteq> DOT) u \<noteq> []"
proof -
  assume "ensg_match u"
  then have t: "take 4 u = js ''ENSG''" by (simp add: ensg_match_def)
  then obtain c cs where u: "u = c # cs" by (cases u) (auto simp: js_def)
  with t have "c = 0x45" by (simp add: js_def)
  with u show ?thesis by simp
qed

lemma normalizeEnsemblId_trimmed:
  "s \<noteq> [] \<Longrightarrow> trim s = s \<Longrightarrow>
   normalizeEnsemblId up s
     = (if ensg_match (up s) then Some (takeWhile (\<lambda>c. c \<noteq> DOT) (up s)) else None)"
  by (simp add: normalizeEnsemblId_def Let_def)

lemma sort_symbol_eq:
  "sort_symbol up raw st =
     (if trim raw = [] then st
      else if ensg_match (up (trim raw))
        then ((fst st)(trim raw \<mapsto> takeWhile (\<lambda>c. c \<noteq> DOT) (up (trim raw))), snd st)
        else (fst st, snd st @ [trim raw]))"
  by (simp add: sort_symbol_def Let_def normalizeEnsemblId_trimmed trim_idem
      ensg_match_stem_nonempty)

lemma fold_sort_symbol:
  "fold (sort_symbol up) symbols (m, p) =
     ((\<lambda>s. if s \<in> trim ` set symbols \<and> s \<noteq> [] \<and> ensg_match (up s)
            then Some (takeWhile (\<lambda>c. c \<noteq> DOT) (up s)) else m s),
      p @ filter (\<lambda>s. s \<noteq> [] \<and> \<not> ensg_match (up s)) (map trim symbols))"
proof (induction symbols arbitrary: m p)
  case Nil
  then show ?case by simp
next
  case (Cons raw symbols)
  have step: "fold (sort_symbol up) (raw # symbols) (m, p)
            = fold (sort_symbol up) symbols (sort_symbol up raw (m, p))" by simp
  consider (blank) "trim raw = []"
    | (direct) "trim raw \<noteq> []" "ensg_match (up (trim raw))"
    | (pending) "trim raw \<noteq> []" "\<not> ensg_match (up (trim raw))" by blast
  then show ?case
  proof cases
    case blank
    then have "sort_symbol up raw (m, p) = (m, p)" by (simp add: sort_symbol_eq)
    with blank show ?thesis unfolding step by (auto simp: Cons.IH fun_eq_iff)
  next
    case direct
    then have "sort_symbol up raw (m, p)
        = (m(trim raw \<mapsto> takeWhile (\<lambda>c. c \<noteq> DOT) (up (trim raw))), p)"
      by (simp add: sort_symbol_eq)
    with direct show ?thesis unfolding step by (auto simp: Cons.IH fun_eq_iff)
  next
    case pending
    then have "sort_symbol up raw (m, p) = (m, p @ [trim raw])" by (simp add: sort_symbol_eq)
    with pending show ?thesis unfolding step by (auto simp: Cons.IH fun_eq_iff)
  qed
qed

lemma sort_symbols_eq:
  "sort_symbols up symbols =
     ((\<lambda>s. if s \<in> trim ` set symbols \<and> s \<noteq> [] \<and> ensg_match (up s)
            then Some (takeWhile (\<lambda>c. c \<noteq> DOT) (up s)) else None),
      filter (\<lambda>s. s \<noteq> [] \<and> \<not> ensg_match (up s)) (map trim symbols))"
  by (simp add: sort_symbols_def fold_sort_symbol)

lemma apply_payload_other:
  "s \<notin> set pending \<Longrightarrow> apply_payload payload pending m s = m s"
  unfolding apply_payload_def
  by (induction pending arbitrary: m) (auto split: option.splits)

text \<open>
  Claim C7. Every symbol whose trimmed form is non-empty and, in upper case, matches
  \<open>ENSG\<close> + digits with an optional dot-version suffix is mapped directly to the upper-case
  form without the suffix and is in no lookup request. The other non-empty trimmed
  symbols, in order, are the body of the only lookup request (none is sent when there are
  none). When the request throws, answers with a non-success status or answers with a
  body that is not JSON, the function still returns a map: the directly mapped symbols
  only, so that no symbol of the batch has an entry.
\<close>

theorem identifier_resolver_fail_open:
  "(\<forall>raw \<in> set symbols. trim raw \<noteq> [] \<and> ensg_match (up (trim raw)) \<longrightarrow>
       resolved (resolveEnsemblIds up lookup symbols) (trim raw)
         = Some (takeWhile (\<lambda>c. c \<noteq> DOT) (up (trim raw)))
     \<and> (\<forall>body \<in> set (lookup_requests (resolveEnsemblIds up lookup symbols)).
           trim raw \<notin> set body))
   \<and> lookup_requests (resolveEnsemblIds up lookup symbols)
       = (if filter (\<lambda>s. s \<noteq> [] \<and> \<not> ensg_match (up s)) (map trim symbols) = [] then []
          else [filter (\<lambda>s. s \<noteq> [] \<and> \<not> ensg_match (up s)) (map trim symbols)])
   \<and> (lookup (filter (\<lambda>s. s \<noteq> [] \<and> \<not> ensg_match (up s)) (map trim symbols))
         \<in> {LookupThrows, LookupBadJson} \<union> range LookupNotOk \<longrightarrow>
       resolved (resolveEnsemblIds up lookup symbols) = fst (sort_symbols up symbols)
     \<and> (\<forall>s \<in> set (filter (\<lambda>s. s \<noteq> [] \<and> \<not> ensg_match (up s)) (map trim symbols)).
           resolved (resolveEnsemblIds up lookup symbols) s = None))"
proof -
  define pending where "pending = filter (\<lambda>s. s \<noteq> [] \<and> \<not> ensg_match (up s)) (map trim symbols)"
  define direct where "direct = (\<lambda>s. if s \<in> trim ` set symbols \<and> s \<noteq> [] \<and> ensg_match (up s)
            then Some (takeWhile (\<lambda>c. c \<noteq> DOT) (up s)) else None)"
  have ss: "sort_symbols up symbols = (direct, pending)"
    by (simp add: sort_symbols_eq direct_def pending_def)
  have reqs: "lookup_requests (resolveEnsemblIds up lookup symbols)
      = (if pending = [] then [] else [pending])"
    by (simp add: resolveEnsemblIds_def ss split: sum.splits)
  have direct_kept: "resolved (resolveEnsemblIds up lookup symbols) s = direct s"
    if "s \<notin> set pending" for s
    using that
    by (auto simp: resolveEnsemblIds_def ss lookup_try_def apply_payload_other
        split: sum.splits lookup_response.splits)
  have 1: "\<forall>raw \<in> set symbols. trim raw \<noteq> [] \<and> ensg_match (up (trim raw)) \<longrightarrow>
       resolved (resolveEnsemblIds up lookup symbols) (trim raw)
         = Some (takeWhile (\<lambda>c. c \<noteq> DOT) (up (trim raw)))
     \<and> (\<forall>body \<in> set (lookup_requests (resolveEnsemblIds up lookup symbols)).
           trim raw \<notin> set body)"
  proof (intro ballI impI)
    fix raw assume raw: "raw \<in> set symbols" and m: "trim raw \<noteq> [] \<and> ensg_match (up (trim raw))"
    then have np: "trim raw \<notin> set pending" by (simp add: pending_def)
    from raw m have "direct (trim raw) = Some (takeWhile (\<lambda>c. c \<noteq> DOT) (up (trim raw)))"
      by (simp add: direct_def)
    with direct_kept [OF np] np
    show "resolved (resolveEnsemblIds up lookup symbols) (trim raw)
         = Some (takeWhile (\<lambda>c. c \<noteq> DOT) (up (trim raw)))
     \<and> (\<forall>body \<in> set (lookup_requests (resolveEnsemblIds up lookup symbols)).
           trim raw \<notin> set body)"
      by (simp add: reqs)
  qed
  have 3: "lookup pending \<in> {LookupThrows, LookupBadJson} \<union> range LookupNotOk \<longrightarrow>
       resolved (resolveEnsemblIds up lookup symbols) = fst (sort_symbols up symbols)
     \<and> (\<forall>s \<in> set pending. resolved (resolveEnsemblIds up lookup symbols) s = None)"
  proof
    assume "lookup pending \<in> {LookupThrows, LookupBadJson} \<union> range LookupNotOk"
    then have r: "resolved (resolveEnsemblIds up lookup symbols) = direct"
      by (auto simp: resolveEnsemblIds_def ss lookup_try_def)
    have "\<forall>s \<in> set pending. direct s = None" by (simp add: pending_def direct_def)
    with r show "resolved (resolveEnsemblIds up lookup symbols) = fst (sort_symbols up symbols)
     \<and> (\<forall>s \<in> set pending. resolved (resolveEnsemblIds up lookup symbols) s = None)"
      by (simp add: ss)
  qed
  from 1 reqs 3 show ?thesis unfolding pending_def by (intro conjI)
qed

theorem identifier_resolver_fail_open_witness:
  "resolved (resolveEnsemblIds (\<lambda>s. s) (\<lambda>_. LookupNotOk 503)
       [js '' ENSG00000141510.5'', js ''TP53'']) (js ''ENSG00000141510.5'')
     = Some (js ''ENSG00000141510'')
   \<and> lookup_requests (resolveEnsemblIds (\<lambda>s. s) (\<lambda>_. LookupNotOk 503)
       [js '' ENSG00000141510.5'', js ''TP53'']) = [[js ''TP53'']]
   \<and> resolved (resolveEnsemblIds (\<lambda>s. s) (\<lambda>_. LookupNotOk 503)
       [js '' ENSG00000141510.5'', js ''TP53'']) (js ''TP53'') = None"
proof -
  let ?symbols = "[js '' ENSG00000141510.5'', js ''TP53'']"
  let ?res = "resolveEnsemblIds (\<lambda>s. s) (\<lambda>_. LookupNotOk 503) ?symbols"
  have tr: "trim (js '' ENSG00000141510.5'') = js ''ENSG00000141510.5''"
    "trim (js ''TP53'') = js ''TP53''"
    by (simp_all add: trim_def js_def is_ws_def)
  have m: "ensg_match (js ''ENSG00000141510.5'')" "\<not> ensg_match (js ''TP53'')"
    by (simp_all add: ensg_match_def js_def is_digit_def)
  have stem: "takeWhile (\<lambda>c. c \<noteq> DOT) (js ''ENSG00000141510.5'') = js ''ENSG00000141510''"
    by (simp add: js_def)
  have ne: "js ''ENSG00000141510.5'' \<noteq> []" "js ''TP53'' \<noteq> []" by (simp_all add: js_def)
  have pend: "filter (\<lambda>s. s \<noteq> [] \<and> \<not> ensg_match s) (map trim ?symbols) = [js ''TP53'']"
    by (simp add: tr m ne)
  have fail: "(\<lambda>_. LookupNotOk 503) [js ''TP53''] \<in> {LookupThrows, LookupBadJson} \<union> range LookupNotOk"
    by simp
  note t = identifier_resolver_fail_open [of ?symbols "\<lambda>s. s" "\<lambda>_. LookupNotOk 503"]
  from t have a: "\<forall>raw \<in> set ?symbols. trim raw \<noteq> [] \<and> ensg_match (trim raw) \<longrightarrow>
       resolved ?res (trim raw) = Some (takeWhile (\<lambda>c. c \<noteq> DOT) (trim raw))
     \<and> (\<forall>body \<in> set (lookup_requests ?res). trim raw \<notin> set body)" by (rule conjunct1)
  have "js '' ENSG00000141510.5'' \<in> set ?symbols" by simp
  with a have "trim (js '' ENSG00000141510.5'') \<noteq> [] \<and> ensg_match (trim (js '' ENSG00000141510.5'')) \<longrightarrow>
       resolved ?res (trim (js '' ENSG00000141510.5''))
         = Some (takeWhile (\<lambda>c. c \<noteq> DOT) (trim (js '' ENSG00000141510.5'')))" by blast
  then have r1: "resolved ?res (js ''ENSG00000141510.5'') = Some (js ''ENSG00000141510'')"
    unfolding tr stem using m(1) ne(1) by blast
  from t have r2: "lookup_requests ?res = [[js ''TP53'']]"
    unfolding pend by simp
  from t fail have "\<forall>s \<in> set [js ''TP53'']. resolved ?res s = None"
    unfolding pend by blast
  then have r3: "resolved ?res (js ''TP53'') = None" by simp
  from r1 r2 r3 show ?thesis by (intro conjI)
qed

lemma total_after_step:
  "total_after server i =
     (case server i of
        PagePayload page \<Rightarrow> (case page_count page of Some c \<Rightarrow> c | None \<Rightarrow> prev_total server i)
      | _ \<Rightarrow> prev_total server i)"
  by (cases i) (simp_all add: prev_total_def split: page_response.splits option.splits)

lemma fetch_loop_stop:
  assumes "page_stops server ind k"
  shows "fetch_loop server ind k (prev_total server k) reqs
           = Some (page_outcome server ind k, reqs @ [k])"
proof (cases "server k")
  case (PagePayload page)
  with assms show ?thesis
    by (subst fetch_loop.simps)
       (auto simp: page_stops_def page_outcome_def total_after_step [of server k]
             split: option.splits)
qed (simp_all add: fetch_loop.simps page_outcome_def)

lemma fetch_loop_continue:
  assumes "\<not> page_stops server ind i"
  shows "fetch_loop server ind i (prev_total server i) reqs
           = fetch_loop server ind (Suc i) (prev_total server (Suc i)) (reqs @ [i])"
proof (cases "server i")
  case (PagePayload page)
  with assms have a: "find (\<lambda>row. disease_id row = Some ind) (page_rows page) = None"
    "page_rows page \<noteq> []" "\<not> int ((i + 1) * 50) \<ge> total_after server i"
    by (simp_all add: page_stops_def)
  have t: "total_after server i = (case page_count page of Some c \<Rightarrow> c | None \<Rightarrow> prev_total server i)"
    by (simp add: total_after_step [of server i] PagePayload)
  have p: "prev_total server (Suc i) = total_after server i" by (simp add: prev_total_def)
  show ?thesis
    using a(3) unfolding p t
    by (subst fetch_loop.simps) (simp add: PagePayload a(1,2))
qed (use assms in \<open>simp_all add: page_stops_def\<close>)

lemma fetch_loop_run:
  assumes "page_stops server ind k" and "\<forall>j. i \<le> j \<and> j < k \<longrightarrow> \<not> page_stops server ind j"
    and "i \<le> k"
  shows "fetch_loop server ind i (prev_total server i) reqs
           = Some (page_outcome server ind k, reqs @ [i..<Suc k])"
  using assms(2,3)
proof (induction "k - i" arbitrary: i reqs)
  case 0
  then have "i = k" by simp
  with fetch_loop_stop [OF assms(1)] show ?case by simp
next
  case (Suc d)
  then have lt: "i < k" by simp
  with Suc.prems have ns: "\<not> page_stops server ind i" by simp
  have "fetch_loop server ind (Suc i) (prev_total server (Suc i)) (reqs @ [i])
      = Some (page_outcome server ind k, (reqs @ [i]) @ [Suc i..<Suc k])"
    using Suc.hyps(2) Suc.prems lt by (intro Suc.hyps(1)) auto
  moreover have "[i..<Suc k] = i # [Suc i..<Suc k]" using lt by (simp add: upt_conv_Cons)
  ultimately show ?case by (simp add: fetch_loop_continue [OF ns])
qed


lemma fetch_stops_at:
  assumes "page_stops server ind k" and "\<forall>j<k. \<not> page_stops server ind j"
  shows "fetchAssociationScore server ind = Some (page_outcome server ind k, [0..<Suc k])"
proof -
  have "fetch_loop server ind 0 (prev_total server 0) [] 
      = Some (page_outcome server ind k, [] @ [0..<Suc k])"
    using assms by (intro fetch_loop_run) auto
  then show ?thesis by (simp add: fetchAssociationScore_def prev_total_def)
qed






lemma isValidIndication_iff: "isValidIndication i \<longleftrightarrow> i = js ''EFO_0000565''"
  by (auto simp: isValidIndication_def INDICATIONS_def)

lemma POST_ignores_indication:
  "POST e rt sv (req\<lparr>indication_id_field := v\<rparr>) = POST e rt sv req"
  by (auto simp: POST_def split: option.splits form_value.splits)

lemma find_done_empty: "find_done (\<lambda>_. Some []) batches m = Some m"
  by (induction batches) simp_all

lemma find_known_scores_empty: "find_known_scores (\<lambda>_. Some []) ind batches m = Some m"
  by (induction batches) simp_all

text \<open>
  Claim C8, as amended. In the handler with association enrichment the field
  \<open>indication_id\<close> is required, and it is its value trimmed of surrounding whitespace
  that is tested: a configured, authenticated submission that omits the field, or whose
  trimmed value is not an identifier of the allow-list, is answered with status 400 and
  ends there, with no insert, nothing logged and no page requested; a submission whose
  trimmed value is an identifier of the allow-list passes the test, also when the value
  as sent is padded and so not in the list itself, and the handler goes on with the
  trimmed identifier. The handler without enrichment never reads the field: its outcome
  is the same for every value of it, and it requests no page.
\<close>

theorem indication_id_required:
  assumes "NEXT_PUBLIC_SUPABASE_URL e \<noteq> []" and "SUPABASE_SECRET_KEY e \<noteq> []"
    and "MODEL_VERSION e \<noteq> []"
    and "bearer_token (authorization req) \<noteq> []"
    and "getUser sv (bearer_token (authorization req)) = Some userId"
  shows "(indication_id_field req = None
            \<or> trim (form_text (indication_id_field req)) \<notin> fst ` set INDICATIONS \<longrightarrow>
          POST_ens e rt sv req
            = Some \<lparr> response = Response 400 (ErrorBody InvalidIndication), insert_calls = [],
                     logged = [], page_requests = [] \<rparr>)
       \<and> (trim (form_text (indication_id_field req)) \<in> fst ` set INDICATIONS \<longrightarrow>
          POST_ens e rt sv req
            = (case (ligand_csv req, target_csv req) of
                 (Some (FormFile ligandText), Some (FormFile targetText)) \<Rightarrow>
                   submit_ens e rt sv userId (form_text (memo_field req))
                     (trim (form_text (indication_id_field req))) ligandText targetText
               | _ \<Rightarrow> Some (reply 400 FilesRequired)))
       \<and> POST e rt sv' (req\<lparr>indication_id_field := v\<rparr>) = POST e rt sv' req
       \<and> page_requests (POST e rt sv' req) = []"
proof (intro conjI impI)
  assume a: "indication_id_field req = None
            \<or> trim (form_text (indication_id_field req)) \<notin> fst ` set INDICATIONS"
  have n: "trim (form_text None) \<notin> fst ` set INDICATIONS"
    by (simp add: form_text_def INDICATIONS_def js_def)
  have "trim (form_text (indication_id_field req)) \<notin> fst ` set INDICATIONS"
  proof (cases "indication_id_field req = None")
    case True
    with n show ?thesis by simp
  next
    case False
    with a show ?thesis by blast
  qed
  then have "trim (form_text (indication_id_field req)) = []
      \<or> \<not> isValidIndication (trim (form_text (indication_id_field req)))"
    by (auto simp: isValidIndication_def list_ex_iff image_iff)
  with assms show "POST_ens e rt sv req
            = Some \<lparr> response = Response 400 (ErrorBody InvalidIndication), insert_calls = [],
                     logged = [], page_requests = [] \<rparr>"
    by (auto simp: POST_ens_def Let_def reply_def)
next
  assume "trim (form_text (indication_id_field req)) \<in> fst ` set INDICATIONS"
  then have "trim (form_text (indication_id_field req)) = js ''EFO_0000565''"
    by (simp add: INDICATIONS_def)
  then have "trim (form_text (indication_id_field req)) \<noteq> []"
    "isValidIndication (trim (form_text (indication_id_field req)))"
    by (simp_all add: isValidIndication_iff js_def)
  with assms show "POST_ens e rt sv req
            = (case (ligand_csv req, target_csv req) of
                 (Some (FormFile ligandText), Some (FormFile targetText)) \<Rightarrow>
                   submit_ens e rt sv userId (form_text (memo_field req))
                     (trim (form_text (indication_id_field req))) ligandText targetText
               | _ \<Rightarrow> Some (reply 400 FilesRequired))"
    by (simp add: POST_ens_def Let_def)
next
  show "POST e rt sv' (req\<lparr>indication_id_field := v\<rparr>) = POST e rt sv' req"
    by (rule POST_ignores_indication)
next
  show "page_requests (POST e rt sv' req) = []"
    by (simp add: POST_def submit_def reply_def persist_def Let_def
        split: option.splits form_value.splits prod.splits)
qed

theorem indication_id_required_witness:
  "POST_ens
     \<lparr>NEXT_PUBLIC_SUPABASE_URL = js ''https://db.example'', SUPABASE_SECRET_KEY = js ''secret'',
        MODEL_VERSION = js ''v1''\<rparr>
     \<lparr>sha256_digest = \<lambda>_. 0, toLowerCase = \<lambda>s. s, toUpperCase = \<lambda>s. s,
        randomUUID = \<lambda>i. replicate (Suc i) 0x61, now_iso = js ''2025-01-01T00:00:00.000Z''\<rparr>
     \<lparr>getUser = \<lambda>_. Some (js ''user-1''), select_done = \<lambda>_. Some [],
        select_known_scores = \<lambda>_ _. Some [], insert_runs = \<lambda>_. True,
        ensembl_lookup = \<lambda>_. LookupPayload Map.empty,
        opentargets = \<lambda>_ _. PagePayload \<lparr>page_count = Some 0, page_rows = []\<rparr>\<rparr>
     \<lparr>authorization = Some (js ''Bearer token''),
        ligand_csv = Some (FormFile (js ''smiles'' @ [LF] @ js ''CCO'')),
        target_csv = Some (FormFile (js ''sequence'' @ [LF] @ js ''MKT'')),
        memo_field = Some (FormText (js ''memo'')),
        indication_id_field = Some (FormText (js ''EFO_0000000''))\<rparr>
   = Some \<lparr>response = Response 400 (ErrorBody InvalidIndication), insert_calls = [],
            logged = [], page_requests = []\<rparr>
   \<and> js '' EFO_0000565 '' \<notin> fst ` set INDICATIONS
   \<and> map_option response (POST_ens
     \<lparr>NEXT_PUBLIC_SUPABASE_URL = js ''https://db.example'', SUPABASE_SECRET_KEY = js ''secret'',
        MODEL_VERSION = js ''v1''\<rparr>
     \<lparr>sha256_digest = \<lambda>_. 0, toLowerCase = \<lambda>s. s, toUpperCase = \<lambda>s. s,
        randomUUID = \<lambda>i. replicate (Suc i) 0x61, now_iso = js ''2025-01-01T00:00:00.000Z''\<rparr>
     \<lparr>getUser = \<lambda>_. Some (js ''user-1''), select_done = \<lambda>_. Some [],
        select_known_scores = \<lambda>_ _. Some [], insert_runs = \<lambda>_. True,
        ensembl_lookup = \<lambda>_. LookupPayload Map.empty,
        opentargets = \<lambda>_ _. PagePayload \<lparr>page_count = Some 0, page_rows = []\<rparr>\<rparr>
     \<lparr>authorization = Some (js ''Bearer token''),
        ligand_csv = Some (FormFile (js ''smiles'' @ [LF] @ js ''CCO'')),
        target_csv = Some (FormFile (js ''sequence'' @ [LF] @ js ''MKT'')),
        memo_field = Some (FormText (js ''memo'')),
        indication_id_field = Some (FormText (js '' EFO_0000565 ''))\<rparr>)
   = Some (Response 200 (SummaryBody \<lparr>sum_total = 1, sum_queued = 1, sum_done = 0, sum_failed = 0\<rparr>))"
proof -
  define e where "e = \<lparr>NEXT_PUBLIC_SUPABASE_URL = js ''https://db.example'', SUPABASE_SECRET_KEY = js ''secret'',
        MODEL_VERSION = js ''v1''\<rparr>"
  define rt where "rt = \<lparr>sha256_digest = \<lambda>_. 0, toLowerCase = \<lambda>s. s, toUpperCase = \<lambda>s. s,
        randomUUID = \<lambda>i. replicate (Suc i) 0x61, now_iso = js ''2025-01-01T00:00:00.000Z''\<rparr>"
  define sv where "sv = (\<lparr>getUser = \<lambda>_. Some (js ''user-1''), select_done = \<lambda>_. Some [],
        select_known_scores = \<lambda>_ _. Some [], insert_runs = \<lambda>_. True,
        ensembl_lookup = \<lambda>_. LookupPayload Map.empty,
        opentargets = \<lambda>_ _. PagePayload \<lparr>page_count = Some 0, page_rows = []\<rparr>\<rparr> :: run_row_ens services)"
  define bad where "bad = \<lparr>authorization = Some (js ''Bearer token''),
        ligand_csv = Some (FormFile (js ''smiles'' @ [LF] @ js ''CCO'')),
        target_csv = Some (FormFile (js ''sequence'' @ [LF] @ js ''MKT'')),
        memo_field = Some (FormText (js ''memo'')),
        indication_id_field = Some (FormText (js ''EFO_0000000''))\<rparr>"
  define pad where "pad = \<lparr>authorization = Some (js ''Bearer token''),
        ligand_csv = Some (FormFile (js ''smiles'' @ [LF] @ js ''CCO'')),
        target_csv = Some (FormFile (js ''sequence'' @ [LF] @ js ''MKT'')),
        memo_field = Some (FormText (js ''memo'')),
        indication_id_field = Some (FormText (js '' EFO_0000565 ''))\<rparr>"
  define ind where "ind = js ''EFO_0000565''"
  have tok: "bearer_token (authorization bad) = js ''token''"
    "bearer_token (authorization pad) = js ''token''"
    by (simp_all add: bad_def pad_def bearer_token_def js_def)
  have ef: "MODEL_VERSION e = js ''v1''" "NEXT_PUBLIC_SUPABASE_URL e \<noteq> []"
    "SUPABASE_SECRET_KEY e \<noteq> []" "js ''v1'' \<noteq> []" "js ''token'' \<noteq> []"
    by (simp_all add: e_def js_def)
  have svf: "select_known_scores sv = (\<lambda>_ _. Some [])" "insert_runs sv = (\<lambda>_. True)"
    "select_done sv = (\<lambda>_. Some [])" "ensembl_lookup sv = (\<lambda>_. LookupPayload Map.empty)"
    "getUser sv = (\<lambda>_. Some (js ''user-1''))"
    by (simp_all add: sv_def)
  have rtf: "toLowerCase rt = (\<lambda>s. s)" "toUpperCase rt = (\<lambda>s. s)" "sha256_digest rt = (\<lambda>_. 0)"
    by (simp_all add: rt_def)
  have a: "NEXT_PUBLIC_SUPABASE_URL e \<noteq> []" "SUPABASE_SECRET_KEY e \<noteq> []"
    "MODEL_VERSION e \<noteq> []" "bearer_token (authorization bad) \<noteq> []"
    "getUser sv (bearer_token (authorization bad)) = Some (js ''user-1'')"
    by (simp_all add: ef tok svf)
  have a': "NEXT_PUBLIC_SUPABASE_URL e \<noteq> []" "SUPABASE_SECRET_KEY e \<noteq> []"
    "MODEL_VERSION e \<noteq> []" "bearer_token (authorization pad) \<noteq> []"
    "getUser sv (bearer_token (authorization pad)) = Some (js ''user-1'')"
    by (simp_all add: ef tok svf)
  have notin: "trim (form_text (indication_id_field bad)) \<notin> fst ` set INDICATIONS"
    by (simp add: bad_def form_text_def INDICATIONS_def trim_def js_def is_ws_def)
  from indication_id_required [OF a] notin
  have r1: "POST_ens e rt sv bad = Some \<lparr>response = Response 400 (ErrorBody InvalidIndication), insert_calls = [],
            logged = [], page_requests = []\<rparr>" by blast
  have padded: "js '' EFO_0000565 '' \<notin> fst ` set INDICATIONS"
    by (simp add: INDICATIONS_def js_def)
  have trimmed: "trim (form_text (indication_id_field pad)) = ind"
    by (simp add: pad_def ind_def form_text_def trim_def js_def is_ws_def)
  have isin: "trim (form_text (indication_id_field pad)) \<in> fst ` set INDICATIONS"
    unfolding trimmed by (simp add: ind_def INDICATIONS_def)
  have files: "ligand_csv pad = Some (FormFile (js ''smiles'' @ LF # js ''CCO''))"
    "target_csv pad = Some (FormFile (js ''sequence'' @ LF # js ''MKT''))"
    "form_text (memo_field pad) = js ''memo''"
    by (simp_all add: pad_def form_text_def)
  from indication_id_required [OF a'] isin
  have go: "POST_ens e rt sv pad
      = submit_ens e rt sv (js ''user-1'') (js ''memo'') ind
          (js ''smiles'' @ LF # js ''CCO'') (js ''sequence'' @ LF # js ''MKT'')"
    unfolding trimmed by (simp add: files)
  have lcsv: "parseCsv (js ''smiles'' @ LF # js ''CCO'')
      = \<lparr>headers = [js ''smiles''], csv_rows = [[js ''CCO'']]\<rparr>"
    by (simp add: parseCsv_def strip_bom_def not_blank_def trim_def js_def is_ws_def)
  have tcsv: "parseCsv (js ''sequence'' @ LF # js ''MKT'')
      = \<lparr>headers = [js ''sequence''], csv_rows = [[js ''MKT'']]\<rparr>"
    by (simp add: parseCsv_def strip_bom_def not_blank_def trim_def js_def is_ws_def)
  have idx: "js ''smiles'' \<noteq> js ''name''" "js ''sequence'' \<noteq> js ''name''"
    by (simp_all add: js_def)
  have ligands: "ligands_of 0 None [[js ''CCO'']] = [\<lparr>smiles = js ''CCO'', ligandName = []\<rparr>]"
    by (simp add: ligands_of_def cell_def opt_cell_def trim_def js_def is_ws_def)
  have targets: "targets_of 0 None [[js ''MKT'']] = [\<lparr>sequence = js ''MKT'', geneName = []\<rparr>]"
    by (simp add: targets_of_def cell_def opt_cell_def trim_def js_def is_ws_def)
  have tr: "trim (js ''CCO'') = js ''CCO''" "trim (js ''MKT'') = js ''MKT''"
    "js ''CCO'' \<noteq> []" "js ''MKT'' \<noteq> []" "\<not> 1280 < length (js ''MKT'')"
    by (simp_all add: trim_def js_def is_ws_def)
  have res: "resolveEnsemblIds (\<lambda>s. s) (\<lambda>_. LookupPayload Map.empty) []
      = \<lparr>resolved = Map.empty, lookup_requests = [], lookup_errors = []\<rparr>"
    by (simp add: resolveEnsemblIds_def sort_symbols_def)
  have ens: "with_ensembl (\<lambda>s. s) Map.empty \<lparr>sequence = js ''MKT'', geneName = []\<rparr>
      = \<lparr>sequence = js ''MKT'', geneName = [], targetEnsemblId = None\<rparr>"
    by (simp add: with_ensembl_def target.defs target_ens.defs)
  define p where "p = mk_pair_ens (\<lambda>_. 0) (js ''v1'') \<lparr>smiles = js ''CCO'', ligandName = []\<rparr>
      \<lparr>sequence = js ''MKT'', geneName = [], targetEnsemblId = None\<rparr>"
  have p: "warnings p = []" "target_ensembl_id p = None"
    by (simp_all add: p_def mk_pair_ens_def mk_pair_def pair.defs pair_ens.defs pair_warnings_def tr)
  have gen: "generate_pairs_ens (\<lambda>_. 0) (js ''v1'') [\<lparr>smiles = js ''CCO'', ligandName = []\<rparr>]
      [\<lparr>sequence = js ''MKT'', geneName = [], targetEnsemblId = None\<rparr>]
      = ([sha256Hex (\<lambda>_. 0) (hash_preimage (js ''CCO'') (js ''MKT'') (js ''v1''))], [p])"
    unfolding p_def
    by (simp add: generate_pairs_ens_def pair_loop_def pair_step_def Let_def push_candidate_def
        mk_pair_def pair_input_hash_def pair_warnings_def tr sha256Hex_nonempty)
  have row: "status (build_row u usr m now mv Map.empty p) = Queued" for u usr m now mv
    by (simp add: build_row_def prior_of_def fresh_row_def p split: option.splits)
  have enrich: "map_option response
        (enrich_and_persist e rt sv (js ''user-1'') (js ''memo'') ind [] Map.empty [p])
      = Some (Response 200 (SummaryBody \<lparr>sum_total = 1, sum_queued = 1, sum_done = 0, sum_failed = 0\<rparr>))"
    by (simp add: enrich_and_persist_def List.map_filter_def p unique_def Let_def svf
        find_known_scores_empty enumerate_eq_zip summarize_def row persist_def)
  have submit: "submit_ens e rt sv (js ''user-1'') (js ''memo'') ind
        (js ''smiles'' @ LF # js ''CCO'') (js ''sequence'' @ LF # js ''MKT'')
      = enrich_and_persist e rt sv (js ''user-1'') (js ''memo'') ind [] Map.empty [p]"
    by (simp add: submit_ens_def lcsv tcsv rtf ef svf idx ligands targets Let_def unique_def
        tr res ens gen find_done_empty)
  from r1 padded enrich show ?thesis
    unfolding submit [symmetric] go [symmetric]
    unfolding e_def rt_def sv_def bad_def pad_def by simp
qed

text \<open>
  The claim as stated fails: a configured, authenticated submission with both files and
  no \<open>indication_id\<close> field is not accepted by the handler with enrichment; it is answered
  with status 400.
\<close>

theorem indication_id_omitted_rejected:
  "POST_ens
     \<lparr>NEXT_PUBLIC_SUPABASE_URL = js ''https://db.example'', SUPABASE_SECRET_KEY = js ''secret'',
        MODEL_VERSION = js ''v1''\<rparr>
     \<lparr>sha256_digest = \<lambda>_. 0, toLowerCase = \<lambda>s. s, toUpperCase = \<lambda>s. s,
        randomUUID = \<lambda>i. replicate (Suc i) 0x61, now_iso = js ''2025-01-01T00:00:00.000Z''\<rparr>
     \<lparr>getUser = \<lambda>_. Some (js ''user-1''), select_done = \<lambda>_. Some [],
        select_known_scores = \<lambda>_ _. Some [], insert_runs = \<lambda>_. True,
        ensembl_lookup = \<lambda>_. LookupPayload Map.empty,
        opentargets = \<lambda>_ _. PagePayload \<lparr>page_count = Some 0, page_rows = []\<rparr>\<rparr>
     \<lparr>authorization = Some (js ''Bearer token''),
        ligand_csv = Some (FormFile (js ''smiles'' @ [LF] @ js ''CCO'')),
        target_csv = Some (FormFile (js ''sequence'' @ [LF] @ js ''MKT'')),
        memo_field = Some (FormText (js ''memo'')),
        indication_id_field = None\<rparr>
   = Some \<lparr>response = Response 400 (ErrorBody InvalidIndication), insert_calls = [],
            logged = [], page_requests = []\<rparr>"
  by (simp add: POST_ens_def bearer_token_def form_text_def reply_def js_def)

lemma total_after_agree:
  "\<forall>i\<le>j. s i = s' i \<Longrightarrow> total_after s j = total_after s' j"
  by (induction j) (simp_all split: page_response.splits option.splits)

lemma page_stops_agree:
  "\<forall>i\<le>j. s i = s' i \<Longrightarrow> page_stops s ind j = page_stops s' ind j"
  using total_after_agree [of j s s'] by (simp add: page_stops_def split: page_response.splits)

lemma page_outcome_agree:
  "s j = s' j \<Longrightarrow> page_outcome s ind j = page_outcome s' ind j"
  by (simp add: page_outcome_def)

lemma fetch_with_empty_page:
  assumes "ot tid k = PageNotOk code"
  shows "same_or_null (fetchAssociationScore (ot t) ind)
           (fetchAssociationScore (with_empty_page ot tid k t) ind)"
proof (cases "t = tid")
  case False
  then have "with_empty_page ot tid k t = ot t" by (simp add: with_empty_page_def fun_eq_iff)
  then show ?thesis by (simp add: same_or_null_def)
next
  case True
  define s where "s = ot tid"
  define s' where "s' = with_empty_page ot tid k tid"
  have agree: "s i = s' i" if "i \<noteq> k" for i
    using that by (simp add: s_def s'_def with_empty_page_def)
  have sk: "s k = PageNotOk code" using assms by (simp add: s_def)
  have s'k: "s' k = PagePayload \<lparr>page_count = None, page_rows = []\<rparr>"
    by (simp add: s'_def with_empty_page_def)
  have stop: "page_stops s ind k" "page_stops s' ind k"
    by (simp_all add: page_stops_def sk s'k)
  have before: "page_stops s ind j = page_stops s' ind j" if "j < k" for j
    using that agree by (intro page_stops_agree) auto
  show ?thesis
  proof (cases "\<exists>j<k. page_stops s ind j")
    case True
    then obtain j where j: "j < k" "page_stops s ind j" "\<forall>i<j. \<not> page_stops s ind i"
      using exists_least_iff [of "\<lambda>j. j < k \<and> page_stops s ind j"]
      by (metis (no_types, lifting) order.strict_trans)
    then have j': "page_stops s' ind j" "\<forall>i<j. \<not> page_stops s' ind i"
      using before by auto
    have "page_outcome s ind j = page_outcome s' ind j"
      using j(1) agree by (intro page_outcome_agree) auto
    with fetch_stops_at [OF j(2,3)] fetch_stops_at [OF j']
    show ?thesis unfolding \<open>t = tid\<close> s_def [symmetric] s'_def [symmetric]
      by (simp add: same_or_null_def)
  next
    case False
    then have n: "\<forall>j<k. \<not> page_stops s ind j" by blast
    then have n': "\<forall>j<k. \<not> page_stops s' ind j" using before by auto
    have "page_outcome s ind k = Inl (OpenTargetsError code)"
      "page_outcome s' ind k = Inr None"
      by (simp_all add: page_outcome_def sk s'k)
    with fetch_stops_at [OF stop(1) n] fetch_stops_at [OF stop(2) n']
    show ?thesis unfolding \<open>t = tid\<close> s_def [symmetric] s'_def [symmetric]
      by (simp add: same_or_null_def)
  qed
qed

lemma fetch_missing_same_or_null:
  assumes "\<forall>t. same_or_null (fetchAssociationScore (ot t) ind) (fetchAssociationScore (ot' t) ind)"
  shows "map_option (\<lambda>(m, es, rs). (m, rs)) (fetch_missing ot ind tids abk errs reqs)
       = map_option (\<lambda>(m, es, rs). (m, rs)) (fetch_missing ot' ind tids abk errs' reqs)"
proof (induction tids arbitrary: abk errs errs' reqs)
  case Nil
  then show ?case by simp
next
  case (Cons t tids)
  show ?case
  proof (cases "abk (associationKey ind t) \<noteq> None")
    case True
    then show ?thesis using Cons.IH [of abk errs reqs errs'] by simp
  next
    case False
    from assms have "same_or_null (fetchAssociationScore (ot t) ind)
        (fetchAssociationScore (ot' t) ind)" by blast
    then consider
        (same) "fetchAssociationScore (ot t) ind = fetchAssociationScore (ot' t) ind"
      | (null) ex pages where "fetchAssociationScore (ot t) ind = Some (Inl ex, pages)"
          "fetchAssociationScore (ot' t) ind = Some (Inr None, pages)"
      by (auto simp: same_or_null_def)
    then show ?thesis
    proof cases
      case same
      show ?thesis
      proof (cases "fetchAssociationScore (ot' t) ind")
        case None
        with same False show ?thesis by simp
      next
        case (Some r)
        obtain v pages where r: "r = (v, pages)" by (cases r)
        show ?thesis
          using same False Some r Cons.IH
          by (cases v) (simp_all)
      qed
    next
      case null
      with False Cons.IH show ?thesis by simp
    qed
  qed
qed

lemma observable_persist:
  "observable (persist ins sm rows errs reqs) = observable (persist ins sm rows errs' reqs)"
  by (simp add: observable_def persist_def)

lemma enrich_same_or_null:
  assumes "\<forall>t. same_or_null (fetchAssociationScore (opentargets sv t) ind)
                 (fetchAssociationScore (ot' t) ind)"
  shows "map_option observable (enrich_and_persist e rt sv u m ind errs0 d pairs)
       = map_option observable
           (enrich_and_persist e rt (sv\<lparr>opentargets := ot'\<rparr>) u m ind errs0 d pairs)"
proof -
  define ids where "ids = unique (filter (\<lambda>v. v \<noteq> []) (List.map_filter target_ensembl_id pairs))"
  show ?thesis
  proof (cases "find_known_scores (select_known_scores sv ind) ind (chunk ids 200) Map.empty")
    case None
    then show ?thesis by (simp add: enrich_and_persist_def ids_def)
  next
    case (Some known)
    note fm = fetch_missing_same_or_null [OF assms, of ids known errs0 "[]" errs0]
    show ?thesis
    proof (cases "fetch_missing (opentargets sv) ind ids known errs0 []")
      case None
      with fm have "fetch_missing ot' ind ids known errs0 [] = None" by simp
      with None Some show ?thesis by (simp add: enrich_and_persist_def ids_def)
    next
      case a: (Some r)
      obtain abk es rs where r: "r = (abk, es, rs)" by (cases r)
      from fm a r obtain es' where b: "fetch_missing ot' ind ids known errs0 [] = Some (abk, es', rs)"
        by (cases "fetch_missing ot' ind ids known errs0 []") auto
      show ?thesis
        using Some a r b observable_persist
        by (simp add: enrich_and_persist_def ids_def [symmetric] Let_def)
    qed
  qed
qed

lemma submit_same_or_null:
  assumes "\<forall>t. same_or_null (fetchAssociationScore (opentargets sv t) ind)
                 (fetchAssociationScore (ot' t) ind)"
  shows "map_option observable (submit_ens e rt sv u m ind ligandText targetText)
       = map_option observable
           (submit_ens e rt (sv\<lparr>opentargets := ot'\<rparr>) u m ind ligandText targetText)"
  using enrich_same_or_null [OF assms]
  by (simp add: submit_ens_def Let_def observable_def reply_def
      split: prod.splits option.splits)

lemma POST_same_or_null:
  assumes "\<forall>t ind. same_or_null (fetchAssociationScore (opentargets sv t) ind)
                 (fetchAssociationScore (ot' t) ind)"
  shows "map_option observable (POST_ens e rt sv req)
       = map_option observable (POST_ens e rt (sv\<lparr>opentargets := ot'\<rparr>) req)"
proof -
  have "map_option observable (submit_ens e rt sv u m ind ligandText targetText)
       = map_option observable
           (submit_ens e rt (sv\<lparr>opentargets := ot'\<rparr>) u m ind ligandText targetText)"
    for u m ind ligandText targetText
    using assms by (intro submit_same_or_null) blast
  then show ?thesis
    by (simp add: POST_ens_def Let_def split: option.splits form_value.splits)
qed

text \<open>
  Claim C6. When the fetch for a target reaches a page whose request is answered with a
  non-success status, the fetch ends there with an exception, each page up to that one
  having been requested once. The handler's loop catches it: the score of that target
  is set to null, the exception goes to the console, and the loop goes on with the
  remaining targets. For the client and the store the request then ends exactly as it
  would had that page been answered by an empty page.
\<close>

theorem non_success_page_aborts_fetch:
  assumes "opentargets sv tid k = PageNotOk code"
    and "\<forall>j<k. \<not> page_stops (opentargets sv tid) ind j"
  shows "fetchAssociationScore (opentargets sv tid) ind
           = Some (Inl (OpenTargetsError code), [0..<Suc k])
    \<and> (abk (associationKey ind tid) = None \<longrightarrow>
         fetch_missing (opentargets sv) ind (tid # tids) abk errs reqs
           = fetch_missing (opentargets sv) ind tids (abk(associationKey ind tid \<mapsto> None))
               (errs @ [OpenTargetsError code]) (reqs @ map (Pair tid) [0..<Suc k]))
    \<and> map_option observable (POST_ens e rt sv req)
        = map_option observable
            (POST_ens e rt (sv\<lparr>opentargets := with_empty_page (opentargets sv) tid k\<rparr>) req)"
proof -
  have stop: "page_stops (opentargets sv tid) ind k"
    by (simp add: page_stops_def assms(1))
  have out: "page_outcome (opentargets sv tid) ind k = Inl (OpenTargetsError code)"
    by (simp add: page_outcome_def assms(1))
  have 1: "fetchAssociationScore (opentargets sv tid) ind
           = Some (Inl (OpenTargetsError code), [0..<Suc k])"
    using fetch_stops_at [OF stop assms(2)] out by simp
  have 2: "abk (associationKey ind tid) = None \<longrightarrow>
         fetch_missing (opentargets sv) ind (tid # tids) abk errs reqs
           = fetch_missing (opentargets sv) ind tids (abk(associationKey ind tid \<mapsto> None))
               (errs @ [OpenTargetsError code]) (reqs @ map (Pair tid) [0..<Suc k])"
    by (simp add: 1)
  have 3: "map_option observable (POST_ens e rt sv req)
        = map_option observable
            (POST_ens e rt (sv\<lparr>opentargets := with_empty_page (opentargets sv) tid k\<rparr>) req)"
    using fetch_with_empty_page [of "opentargets sv" tid k code, OF assms(1)]
    by (intro POST_same_or_null) blast
  from 1 2 3 show ?thesis by (intro conjI)
qed

theorem non_success_page_aborts_fetch_witness:
  "fetchAssociationScore ((\<lambda>_ _. PageNotOk 503) (js ''ENSG00000141510'')) (js ''EFO_0000565'')
     = Some (Inl (OpenTargetsError 503), [0])
   \<and> map_option observable (POST_ens
       \<lparr>NEXT_PUBLIC_SUPABASE_URL = js ''https://db.example'', SUPABASE_SECRET_KEY = js ''secret'',
        MODEL_VERSION = js ''v1''\<rparr>
       \<lparr>sha256_digest = \<lambda>_. 0, toLowerCase = \<lambda>s. s, toUpperCase = \<lambda>s. s,
        randomUUID = \<lambda>i. replicate (Suc i) 0x61, now_iso = js ''2025-01-01T00:00:00.000Z''\<rparr>
       \<lparr>getUser = \<lambda>_. Some (js ''user-1''), select_done = \<lambda>_. Some [],
        select_known_scores = \<lambda>_ _. Some [], insert_runs = \<lambda>_. True,
        ensembl_lookup = \<lambda>_. LookupPayload Map.empty,
        opentargets = \<lambda>_ _. PageNotOk 503\<rparr>
       \<lparr>authorization = Some (js ''Bearer token''),
        ligand_csv = Some (FormFile (js ''smiles'' @ [LF] @ js ''CCO'')),
        target_csv = Some (FormFile (js ''sequence,name'' @ [LF] @ js ''MKT,ENSG00000141510'')),
        memo_field = Some (FormText (js ''memo'')),
        indication_id_field = Some (FormText (js ''EFO_0000565''))\<rparr>)
     = map_option observable (POST_ens
       \<lparr>NEXT_PUBLIC_SUPABASE_URL = js ''https://db.example'', SUPABASE_SECRET_KEY = js ''secret'',
        MODEL_VERSION = js ''v1''\<rparr>
       \<lparr>sha256_digest = \<lambda>_. 0, toLowerCase = \<lambda>s. s, toUpperCase = \<lambda>s. s,
        randomUUID = \<lambda>i. replicate (Suc i) 0x61, now_iso = js ''2025-01-01T00:00:00.000Z''\<rparr>
       \<lparr>getUser = \<lambda>_. Some (js ''user-1''), select_done = \<lambda>_. Some [],
        select_known_scores = \<lambda>_ _. Some [], insert_runs = \<lambda>_. True,
        ensembl_lookup = \<lambda>_. LookupPayload Map.empty,
        opentargets = with_empty_page (\<lambda>_ _. PageNotOk 503) (js ''ENSG00000141510'') 0\<rparr>
       \<lparr>authorization = Some (js ''Bearer token''),
        ligand_csv = Some (FormFile (js ''smiles'' @ [LF] @ js ''CCO'')),
        target_csv = Some (FormFile (js ''sequence,name'' @ [LF] @ js ''MKT,ENSG00000141510'')),
        memo_field = Some (FormText (js ''memo'')),
        indication_id_field = Some (FormText (js ''EFO_0000565''))\<rparr>)
   \<and> map_option (\<lambda>out. (response out, logged out, page_requests out)) (POST_ens
       \<lparr>NEXT_PUBLIC_SUPABASE_URL = js ''https://db.example'', SUPABASE_SECRET_KEY = js ''secret'',
        MODEL_VERSION = js ''v1''\<rparr>
       \<lparr>sha256_digest = \<lambda>_. 0, toLowerCase = \<lambda>s. s, toUpperCase = \<lambda>s. s,
        randomUUID = \<lambda>i. replicate (Suc i) 0x61, now_iso = js ''2025-01-01T00:00:00.000Z''\<rparr>
       \<lparr>getUser = \<lambda>_. Some (js ''user-1''), select_done = \<lambda>_. Some [],
        select_known_scores = \<lambda>_ _. Some [], insert_runs = \<lambda>_. True,
        ensembl_lookup = \<lambda>_. LookupPayload Map.empty,
        opentargets = \<lambda>_ _. PageNotOk 503\<rparr>
       \<lparr>authorization = Some (js ''Bearer token''),
        ligand_csv = Some (FormFile (js ''smiles'' @ [LF] @ js ''CCO'')),
        target_csv = Some (FormFile (js ''sequence,name'' @ [LF] @ js ''MKT,ENSG00000141510'')),
        memo_field = Some (FormText (js ''memo'')),
        indication_id_field = Some (FormText (js ''EFO_0000565''))\<rparr>)
     = Some (Response 200 (SummaryBody \<lparr>sum_total = 1, sum_queued = 1, sum_done = 0, sum_failed = 0\<rparr>),
             [OpenTargetsError 503], [(js ''ENSG00000141510'', 0)])"
proof -
  define e where "e = \<lparr>NEXT_PUBLIC_SUPABASE_URL = js ''https://db.example'', SUPABASE_SECRET_KEY = js ''secret'',
        MODEL_VERSION = js ''v1''\<rparr>"
  define rt where "rt = \<lparr>sha256_digest = \<lambda>_. 0, toLowerCase = \<lambda>s. s, toUpperCase = \<lambda>s. s,
        randomUUID = \<lambda>i. replicate (Suc i) 0x61, now_iso = js ''2025-01-01T00:00:00.000Z''\<rparr>"
  define sv where "sv = (\<lparr>getUser = \<lambda>_. Some (js ''user-1''), select_done = \<lambda>_. Some [],
        select_known_scores = \<lambda>_ _. Some [], insert_runs = \<lambda>_. True,
        ensembl_lookup = \<lambda>_. LookupPayload Map.empty,
        opentargets = \<lambda>_ _. PageNotOk 503\<rparr> :: run_row_ens services)"
  define req where "req = \<lparr>authorization = Some (js ''Bearer token''),
        ligand_csv = Some (FormFile (js ''smiles'' @ [LF] @ js ''CCO'')),
        target_csv = Some (FormFile (js ''sequence,name'' @ [LF] @ js ''MKT,ENSG00000141510'')),
        memo_field = Some (FormText (js ''memo'')),
        indication_id_field = Some (FormText (js ''EFO_0000565''))\<rparr>"
  define tid where "tid = js ''ENSG00000141510''"
  define ind where "ind = js ''EFO_0000565''"
  have ot: "opentargets sv = (\<lambda>_ _. PageNotOk 503)" by (simp add: sv_def)
  have svf: "select_known_scores sv = (\<lambda>_ _. Some [])" "insert_runs sv = (\<lambda>_. True)"
    "select_done sv = (\<lambda>_. Some [])" "ensembl_lookup sv = (\<lambda>_. LookupPayload Map.empty)"
    "getUser sv = (\<lambda>_. Some (js ''user-1''))"
    by (simp_all add: sv_def)
  have a: "opentargets sv tid 0 = PageNotOk 503" "\<forall>j<0. \<not> page_stops (opentargets sv tid) ind j"
    by (simp_all add: ot)
  note t = non_success_page_aborts_fetch [OF a, of Map.empty "[]" "[]" "[]" e rt req]
  have u: "[0..<Suc 0] = [0]" by simp
  from t have f: "fetchAssociationScore (opentargets sv tid) ind
      = Some (Inl (OpenTargetsError 503), [0])" unfolding u by blast
  from t have o: "map_option observable (POST_ens e rt sv req)
        = map_option observable
            (POST_ens e rt (sv\<lparr>opentargets := with_empty_page (opentargets sv) tid 0\<rparr>) req)"
    by blast
  have tok: "bearer_token (authorization req) = js ''token''"
    by (simp add: req_def bearer_token_def js_def)
  have indication: "trim (form_text (indication_id_field req)) = ind"
    by (simp add: req_def ind_def form_text_def trim_def js_def is_ws_def)
  have valid: "isValidIndication ind" "ind \<noteq> []"
    by (simp_all add: ind_def isValidIndication_def INDICATIONS_def js_def)
  have lcsv: "parseCsv (js ''smiles'' @ LF # js ''CCO'')
      = \<lparr>headers = [js ''smiles''], csv_rows = [[js ''CCO'']]\<rparr>"
    by (simp add: parseCsv_def strip_bom_def not_blank_def trim_def js_def is_ws_def)
  have tcsv: "parseCsv (js ''sequence,name'' @ LF # js ''MKT,ENSG00000141510'')
      = \<lparr>headers = [js ''sequence'', js ''name''],
          csv_rows = [[js ''MKT'', js ''ENSG00000141510'']]\<rparr>"
    by (simp add: parseCsv_def strip_bom_def not_blank_def trim_def js_def is_ws_def)
  have rtf: "toLowerCase rt = (\<lambda>s. s)" "toUpperCase rt = (\<lambda>s. s)" "sha256_digest rt = (\<lambda>_. 0)"
    by (simp_all add: rt_def)
  have ef: "MODEL_VERSION e = js ''v1''" "NEXT_PUBLIC_SUPABASE_URL e \<noteq> []"
    "SUPABASE_SECRET_KEY e \<noteq> []" "js ''v1'' \<noteq> []" "js ''token'' \<noteq> []"
    by (simp_all add: e_def js_def)
  have idx: "js ''smiles'' \<noteq> js ''name''" "js ''sequence'' \<noteq> js ''name''"
    by (simp_all add: js_def)
  have ligands: "ligands_of 0 None [[js ''CCO'']] = [\<lparr>smiles = js ''CCO'', ligandName = []\<rparr>]"
    by (simp add: ligands_of_def cell_def opt_cell_def trim_def js_def is_ws_def)
  have targets: "targets_of 0 (Some (Suc 0)) [[js ''MKT'', js ''ENSG00000141510'']]
      = [\<lparr>sequence = js ''MKT'', geneName = tid\<rparr>]"
    by (simp add: targets_of_def cell_def opt_cell_def trim_def js_def is_ws_def tid_def)
  have tr: "trim tid = tid" "tid \<noteq> []" "trim (js ''CCO'') = js ''CCO''" "trim (js ''MKT'') = js ''MKT''"
    "js ''CCO'' \<noteq> []" "js ''MKT'' \<noteq> []" "\<not> 1280 < length (js ''MKT'')"
    by (simp_all add: tid_def trim_def js_def is_ws_def)
  have norm: "normalizeEnsemblId (\<lambda>s. s) tid = Some tid"
    by (simp add: normalizeEnsemblId_def tr) (simp add: tid_def ensg_match_def is_digit_def js_def)
  have res: "resolveEnsemblIds (\<lambda>s. s) (\<lambda>_. LookupPayload Map.empty) [tid]
      = \<lparr>resolved = [tid \<mapsto> tid], lookup_requests = [], lookup_errors = []\<rparr>"
    by (simp add: resolveEnsemblIds_def sort_symbols_def sort_symbol_def tr norm)
  have ens: "with_ensembl (\<lambda>s. s) [tid \<mapsto> tid] \<lparr>sequence = js ''MKT'', geneName = tid\<rparr>
      = \<lparr>sequence = js ''MKT'', geneName = tid, targetEnsemblId = Some tid\<rparr>"
    by (simp add: with_ensembl_def tr norm target.defs target_ens.defs)
  define p where "p = mk_pair_ens (\<lambda>_. 0) (js ''v1'') \<lparr>smiles = js ''CCO'', ligandName = []\<rparr>
      \<lparr>sequence = js ''MKT'', geneName = tid, targetEnsemblId = Some tid\<rparr>"
  have p: "warnings p = []" "target_ensembl_id p = Some tid"
    "input_hash p = Some (sha256Hex (\<lambda>_. 0) (hash_preimage (js ''CCO'') (js ''MKT'') (js ''v1'')))"
    by (simp_all add: p_def mk_pair_ens_def mk_pair_def pair.defs pair_ens.defs pair_warnings_def
        pair_input_hash_def tr)
  have gen: "generate_pairs_ens (\<lambda>_. 0) (js ''v1'') [\<lparr>smiles = js ''CCO'', ligandName = []\<rparr>]
      [\<lparr>sequence = js ''MKT'', geneName = tid, targetEnsemblId = Some tid\<rparr>]
      = ([sha256Hex (\<lambda>_. 0) (hash_preimage (js ''CCO'') (js ''MKT'') (js ''v1''))], [p])"
    unfolding p_def
    by (simp add: generate_pairs_ens_def pair_loop_def pair_step_def Let_def push_candidate_def
        mk_pair_def pair_input_hash_def pair_warnings_def tr sha256Hex_nonempty)
  have fm: "fetch_missing (opentargets sv) ind [tid] Map.empty [] []
      = Some ([associationKey ind tid \<mapsto> None], [OpenTargetsError 503], [(tid, 0)])"
    by (simp add: f)
  have row: "status (build_row u usr m now mv Map.empty p) = Queued" for u usr m now mv
    by (simp add: build_row_def prior_of_def fresh_row_def p split: option.splits)
  have enrich: "map_option (\<lambda>out. (response out, logged out, page_requests out))
        (enrich_and_persist e rt sv (js ''user-1'') (js ''memo'') ind [] Map.empty [p])
      = Some (Response 200 (SummaryBody \<lparr>sum_total = 1, sum_queued = 1, sum_done = 0, sum_failed = 0\<rparr>),
             [OpenTargetsError 503], [(tid, 0)])"
    by (simp add: enrich_and_persist_def List.map_filter_def p tr unique_def Let_def svf
        find_known_scores_empty f enumerate_eq_zip summarize_def row persist_def)
  have submit: "submit_ens e rt sv (js ''user-1'') (js ''memo'') ind
        (js ''smiles'' @ LF # js ''CCO'') (js ''sequence,name'' @ LF # js ''MKT,ENSG00000141510'')
      = enrich_and_persist e rt sv (js ''user-1'') (js ''memo'') ind [] Map.empty [p]"
    by (simp add: submit_ens_def lcsv tcsv rtf ef svf idx ligands targets Let_def unique_def
        tr res ens gen find_done_empty)
  have files: "ligand_csv req = Some (FormFile (js ''smiles'' @ [LF] @ js ''CCO''))"
    "target_csv req = Some (FormFile (js ''sequence,name'' @ [LF] @ js ''MKT,ENSG00000141510''))"
    "form_text (memo_field req) = js ''memo''"
    by (simp_all add: req_def form_text_def)
  have post: "POST_ens e rt sv req
      = enrich_and_persist e rt sv (js ''user-1'') (js ''memo'') ind [] Map.empty [p]"
    by (simp add: POST_ens_def ef tok svf indication valid files submit)
  from f o enrich show ?thesis
    unfolding post [symmetric]
    unfolding e_def rt_def sv_def req_def tid_def ind_def by simp
qed

end
